theory Spec2Isabelle
  imports Complex_Main "HOL-Library.Word"
begin

unbundle bit_operations_syntax

section \<open>Scalars, faults and the value types of the math package\<close>

text \<open>
  The package computes on C++ \<open>double\<close>. The development idealises \<open>double\<close> as
  \<^typ>\<open>real\<close>: every arithmetic operation is exact, so an "approximately equal within
  tolerance" of the specification reads as equality here. Comparisons with zero
  (\<open>== 0\<close>) are the exact tests of the source. C++ \<open>int\<close> values that are used as
  sizes and indices are natural numbers; where the source computes with possibly negative
  \<open>int\<close>s (diagonal offsets) the model uses \<^typ>\<open>int\<close>; the \<open>int\<close> overload of
  \<open>MP_swap\<close> works on the 32-bit representation.
\<close>

datatype fault = Assertion_Failed | Out_Of_Bounds | Degenerate_Vector

text \<open>\<open>MPdefs.tpp\<close>: \<open>MP_abs\<close>, \<open>MP_min\<close>.\<close>

definition MP_abs :: "'a::{linorder,uminus,zero} \<Rightarrow> 'a" where
  "MP_abs a = (if a \<ge> 0 then a else - a)"

definition MP_min :: "'a::linorder \<Rightarrow> 'a \<Rightarrow> 'a" where
  "MP_min a b = (if a < b then a else b)"

text \<open>
  \<open>MatrixN\<close> (\<open>MatrixN.h\<close>): the private members \<open>m_rows\<close>, \<open>m_cols\<close> and the heap
  buffer \<open>m_matrix\<close>, stored row by row. A \<open>VectorN\<close> is its buffer, a list whose length
  is \<open>m_size\<close>.
\<close>

record MatrixN =
  m_rows :: nat
  m_cols :: nat
  m_matrix :: "real list"

definition wf_matrix :: "MatrixN \<Rightarrow> bool" where
  "wf_matrix M = (length (m_matrix M) = m_rows M * m_cols M)"

section \<open>\<open>MP_swap\<close>: the generic template and the \<open>int\<close> overload\<close>

text \<open>
  Both overloads take their arguments by reference, so the model passes a store (a function
  from addresses to values) and the two addresses; the same address twice is the aliased
  call \<open>MP_swap(x, x)\<close>.
\<close>

definition MP_swap :: "('p \<Rightarrow> 'a) \<Rightarrow> 'p \<Rightarrow> 'p \<Rightarrow> ('p \<Rightarrow> 'a)" where
  "MP_swap s a b =
     (let t = s a;
          s1 = s(a := s b);
          s2 = s1(b := t)
      in s2)"

definition MP_swap_int :: "('p \<Rightarrow> 32 word) \<Rightarrow> 'p \<Rightarrow> 'p \<Rightarrow> ('p \<Rightarrow> 32 word)" where
  "MP_swap_int s a b =
     (let s1 = s(a := s a XOR s b);
          s2 = s1(b := s1 b XOR s1 a);
          s3 = s2(a := s2 a XOR s2 b)
      in s3)"

text \<open>
  The generic template applied to two cells \<open>d[i]\<close>, \<open>d[j]\<close> of one array of doubles, as
  the solvers call it.
\<close>

definition MP_swap_at :: "'a list \<Rightarrow> nat \<Rightarrow> nat \<Rightarrow> 'a list" where
  "MP_swap_at d i j =
     (let t = d ! i;
          d1 = d[i := d ! j];
          d2 = d1[j := t]
      in d2)"

section \<open>Generic matrix procedures: \<open>MP_getDiag\<close> and \<open>MP_setDiag\<close>\<close>

text \<open>
  \<open>MPdefs.tpp\<close>. Both functions walk a raw pointer \<open>p\<close> through the buffer of \<open>A\<close>,
  advancing by \<open>m + 1\<close>; the model keeps the offset of \<open>p\<close> from \<open>&A[0]\<close> and reports
  a dereference outside the buffer as \<^const>\<open>Out_Of_Bounds\<close> (undefined behaviour in the
  source). A failed \<open>assert\<close> is \<^const>\<open>Assertion_Failed\<close>. The copy loop
  \<open>for(i=0; i<l; i++, p+=m+1) { if(i >= max) break; ... }\<close> returns the value of \<open>i\<close>
  at which it stops.
\<close>

function getDiag_copy ::
  "real list \<Rightarrow> nat \<Rightarrow> int \<Rightarrow> nat \<Rightarrow> nat \<Rightarrow> nat \<Rightarrow> real list \<Rightarrow> fault + nat \<times> real list" where
  "getDiag_copy a l mx m p i u =
     (if i < l then
        (if int i \<ge> mx then Inr (i, u)
         else if p < length a then getDiag_copy a l mx m (p + (m + 1)) (i + 1) (u[i := a ! p])
         else Inl Out_Of_Bounds)
      else Inr (i, u))"
  by pat_completeness auto
termination
  by (relation "measure (\<lambda>(a, l, mx, m, p, i, u). l - i)") auto

text \<open>\<open>for(; i<n; i++) u[i] = 0;\<close>\<close>

function getDiag_pad :: "nat \<Rightarrow> nat \<Rightarrow> real list \<Rightarrow> real list" where
  "getDiag_pad n i u = (if i < n then getDiag_pad n (i + 1) (u[i := 0]) else u)"
  by pat_completeness auto
termination
  by (relation "measure (\<lambda>(n, i, u). n - i)") auto

definition MP_getDiag :: "MatrixN \<Rightarrow> int \<Rightarrow> real list \<Rightarrow> fault + real list" where
  "MP_getDiag A d u =
     (let l = m_rows A; m = m_cols A; n = length u in
      if d \<ge> 0 then
        (if d < int l then
           (let mx = MP_min (int m - d) (int n) in
            case getDiag_copy (m_matrix A) l mx m (nat d) 0 u of
              Inl e \<Rightarrow> Inl e
            | Inr (i, u') \<Rightarrow> Inr (getDiag_pad n i u'))
         else Inl Assertion_Failed)
      else
        (if MP_abs d < int l then
           (let mx = MP_min (int l + d) (int n) in
            case getDiag_copy (m_matrix A) l mx m (nat (- d * int m)) 0 u of
              Inl e \<Rightarrow> Inl e
            | Inr (i, u') \<Rightarrow> Inr (getDiag_pad n i u'))
         else Inl Assertion_Failed))"

function setDiag_copy ::
  "real list \<Rightarrow> nat \<Rightarrow> int \<Rightarrow> nat \<Rightarrow> nat \<Rightarrow> nat \<Rightarrow> real list \<Rightarrow> fault + real list" where
  "setDiag_copy u l mx m p i a =
     (if i < l then
        (if int i \<ge> mx then Inr a
         else if p < length a then setDiag_copy u l mx m (p + (m + 1)) (i + 1) (a[p := u ! i])
         else Inl Out_Of_Bounds)
      else Inr a)"
  by pat_completeness auto
termination
  by (relation "measure (\<lambda>(u, l, mx, m, p, i, a). l - i)") auto

definition MP_setDiag :: "real list \<Rightarrow> MatrixN \<Rightarrow> int \<Rightarrow> fault + MatrixN" where
  "MP_setDiag u A d =
     (let l = m_rows A; m = m_cols A; n = length u in
      if d \<ge> 0 then
        (if d < int l then
           (let mx = MP_min (int m - d) (int n) in
            case setDiag_copy u l mx m (nat d) 0 (m_matrix A) of
              Inl e \<Rightarrow> Inl e
            | Inr a' \<Rightarrow> Inr (A\<lparr>m_matrix := a'\<rparr>))
         else Inl Assertion_Failed)
      else
        (if MP_abs d < int l then
           (let mx = MP_min (int l + d) (int n) in
            case setDiag_copy u l mx m (nat (- d * int m)) 0 (m_matrix A) of
              Inl e \<Rightarrow> Inl e
            | Inr a' \<Rightarrow> Inr (A\<lparr>m_matrix := a'\<rparr>))
         else Inl Assertion_Failed))"

section \<open>Direct solvers: Gauss-Jordan and Gaussian elimination\<close>

text \<open>
  \<open>MPgauss.tpp\<close>. Both solvers take \<open>A\<close>, \<open>B\<close> and \<open>X\<close> by reference; the three
  arguments are three objects (every dynamic matrix owns its buffer), held here in one
  record so that each call returns all three. The solvers report a singular matrix on
  \<open>std::cerr\<close> and return; the model returns the report with the objects as they are at
  that moment. A failed \<open>assert\<close> aborts before anything is written.
\<close>

record gauss_args =
  arg_A :: MatrixN
  arg_B :: MatrixN
  arg_X :: MatrixN

datatype report = Done | Singular_Matrix | Assertion_Abort

text \<open>
  The solvers work on the raw buffers \<open>p1 = &A[0]\<close> and \<open>p2 = &X[0]\<close>; \<open>put_buffers\<close>
  writes the buffers back into the objects.
\<close>

definition put_buffers :: "real list \<Rightarrow> real list \<Rightarrow> gauss_args \<Rightarrow> gauss_args" where
  "put_buffers p1 p2 s = s\<lparr>arg_A := (arg_A s)\<lparr>m_matrix := p1\<rparr>, arg_X := (arg_X s)\<lparr>m_matrix := p2\<rparr>\<rparr>"

text \<open>
  Row loops on a buffer \<open>p\<close> of row width \<open>w\<close>:
  \<open>for(col=0; col<w; col++) MP_swap(d1[col], d2[col])\<close> with \<open>d1 = &p[r1*w]\<close>,
  \<open>d2 = &p[r2*w]\<close>; \<open>for(col=0; col<w; col++) d1[col] *= k\<close> with \<open>d1 = &p[r*w]\<close>;
  \<open>for(col=c0; col<w; col++) d1[col] -= d2[col]*r\<close> with \<open>d1 = &p[row*w]\<close>,
  \<open>d2 = &p[prow*w]\<close>.
\<close>

definition swap_rows :: "nat \<Rightarrow> nat \<Rightarrow> nat \<Rightarrow> real list \<Rightarrow> real list" where
  "swap_rows w r1 r2 p = fold (\<lambda>col p. MP_swap_at p (r1 * w + col) (r2 * w + col)) [0..<w] p"

definition scale_row :: "real \<Rightarrow> nat \<Rightarrow> nat \<Rightarrow> real list \<Rightarrow> real list" where
  "scale_row k w r p = fold (\<lambda>col p. p[r * w + col := p ! (r * w + col) * k]) [0..<w] p"

definition sub_row :: "real \<Rightarrow> nat \<Rightarrow> nat \<Rightarrow> nat \<Rightarrow> nat \<Rightarrow> real list \<Rightarrow> real list" where
  "sub_row r w c0 row prow p =
     fold (\<lambda>col p. p[row * w + col := p ! (row * w + col) - p ! (prow * w + col) * r]) [c0..<w] p"

text \<open>
  Column swap of the unscrambling loop: \<open>d1 = &p1[c1]\<close>, \<open>d2 = &p1[c2]\<close>, and for each
  row \<open>MP_swap(*d1, *d2); d1 += n; d2 += n\<close>.
\<close>

definition swap_cols :: "nat \<Rightarrow> nat \<Rightarrow> nat \<Rightarrow> real list \<Rightarrow> real list" where
  "swap_cols n c1 c2 p = fold (\<lambda>row p. MP_swap_at p (row * n + c1) (row * n + c2)) [0..<n] p"

subsection \<open>\<open>MP_GaussJordan\<close>\<close>

text \<open>
  The search for the biggest pivot: the running triple is \<open>(big, irow, icol)\<close>; rows and
  columns whose pivot flag is set are skipped.
\<close>

definition gj_scan_col ::
  "nat \<Rightarrow> real list \<Rightarrow> int list \<Rightarrow> nat \<Rightarrow> nat \<Rightarrow> real \<times> nat \<times> nat \<Rightarrow> real \<times> nat \<times> nat" where
  "gj_scan_col n p1 pivotflg row col acc =
     (case acc of (big, irow, icol) \<Rightarrow>
        if pivotflg ! col = 0 then
          (if MP_abs (p1 ! (row * n + col)) > big
           then (MP_abs (p1 ! (row * n + col)), row, col)
           else acc)
        else acc)"

definition gj_scan_row ::
  "nat \<Rightarrow> real list \<Rightarrow> int list \<Rightarrow> nat \<Rightarrow> real \<times> nat \<times> nat \<Rightarrow> real \<times> nat \<times> nat" where
  "gj_scan_row n p1 pivotflg row acc =
     (if pivotflg ! row = 0 then fold (gj_scan_col n p1 pivotflg row) [0..<n] acc else acc)"

definition gj_find_pivot ::
  "nat \<Rightarrow> real list \<Rightarrow> int list \<Rightarrow> nat \<Rightarrow> nat \<Rightarrow> real \<times> nat \<times> nat" where
  "gj_find_pivot n p1 pivotflg irow icol = fold (gj_scan_row n p1 pivotflg) [0..<n] (0, irow, icol)"

text \<open>"Fix the other rows by subtracting": one row of the loop over \<open>row\<close>.\<close>

definition gj_fix_row :: "nat \<Rightarrow> nat \<Rightarrow> nat \<Rightarrow> nat \<Rightarrow> real list \<times> real list \<Rightarrow> real list \<times> real list" where
  "gj_fix_row n m icol row ps =
     (case ps of (p1, p2) \<Rightarrow>
        if row \<noteq> icol then
          (let r = p1 ! (row * n + icol);
               p1a = p1[row * n + icol := 0];
               p1b = sub_row r n 0 row icol p1a;
               p2b = sub_row r m 0 row icol p2
           in (p1b, p2b))
        else (p1, p2))"

text \<open>
  The local variables of the reduction loop: the buffers \<open>p1\<close> and \<open>p2\<close>, the three
  bookkeeping arrays \<open>pivotflg\<close>, \<open>row_indx\<close>, \<open>col_indx\<close>, and \<open>irow\<close>, \<open>icol\<close>
  (declared outside the loop, so they keep their value from one iteration to the next).
\<close>

type_synonym gj_vars = "real list \<times> real list \<times> int list \<times> nat list \<times> nat list \<times> nat \<times> nat"

text \<open>
  One iteration of the loop over \<open>i\<close>; \<open>Inl\<close> is the return after
  "couldn't find nonzero pivot", with the buffers as they are.
\<close>

definition gj_iteration :: "nat \<Rightarrow> nat \<Rightarrow> nat \<Rightarrow> gj_vars \<Rightarrow> (real list \<times> real list) + gj_vars" where
  "gj_iteration n m i v =
     (case v of (p1, p2, pivotflg, row_indx, col_indx, irow0, icol0) \<Rightarrow>
        (case gj_find_pivot n p1 pivotflg irow0 icol0 of (big, irow, icol) \<Rightarrow>
           if big = 0 then Inl (p1, p2)
           else
             (let pivotflg' = pivotflg[icol := pivotflg ! icol + 1];
                  p1a = (if irow \<noteq> icol then swap_rows n irow icol p1 else p1);
                  p2a = (if irow \<noteq> icol then swap_rows m irow icol p2 else p2);
                  row_indx' = row_indx[i := irow];
                  col_indx' = col_indx[i := icol];
                  pivinv = 1 / p1a ! (icol * n + icol);
                  p1b = p1a[icol * n + icol := 1];
                  p1c = scale_row pivinv n icol p1b;
                  p2c = scale_row pivinv m icol p2a;
                  (p1d, p2d) = fold (gj_fix_row n m icol) [0..<n] (p1c, p2c)
              in Inr (p1d, p2d, pivotflg', row_indx', col_indx', irow, icol))))"

function gj_reduce :: "nat \<Rightarrow> nat \<Rightarrow> nat \<Rightarrow> gj_vars \<Rightarrow> (real list \<times> real list) + gj_vars" where
  "gj_reduce n m i v =
     (if i < n then
        (case gj_iteration n m i v of
           Inl ps \<Rightarrow> Inl ps
         | Inr v' \<Rightarrow> gj_reduce n m (i + 1) v')
      else Inr v)"
  by pat_completeness auto
termination
  by (relation "measure (\<lambda>(n, m, i, v). n - i)") auto

text \<open>The unscrambling loop \<open>for(i=n-1; i>=0; i--)\<close>.\<close>

definition gj_unscramble :: "nat \<Rightarrow> nat list \<Rightarrow> nat list \<Rightarrow> real list \<Rightarrow> real list" where
  "gj_unscramble n row_indx col_indx p1 =
     fold (\<lambda>i p. if row_indx ! i \<noteq> col_indx ! i
                  then swap_cols n (row_indx ! i) (col_indx ! i) p else p)
          (rev [0..<n]) p1"

text \<open>
  The special case of a 1-by-1 matrix, shared by both solvers:
  \<open>for(col=0; col<m; col++) p2[col] /= *p1; *p1 = 1.0 / *p1\<close>.
\<close>

definition solve_1x1 :: "nat \<Rightarrow> real list \<Rightarrow> real list \<Rightarrow> real list \<times> real list" where
  "solve_1x1 m p1 p2 =
     (let p2' = fold (\<lambda>col p. p[col := p ! col / p1 ! 0]) [0..<m] p2;
          p1' = p1[0 := 1 / p1 ! 0]
      in (p1', p2'))"

definition MP_GaussJordan :: "gauss_args \<Rightarrow> report \<times> gauss_args" where
  "MP_GaussJordan s =
     (if \<not> (m_rows (arg_A s) = m_cols (arg_A s) \<and> m_rows (arg_A s) = m_rows (arg_B s))
      then (Assertion_Abort, s)
      else
        (let n = m_cols (arg_A s);
             m = m_cols (arg_B s);
             s1 = s\<lparr>arg_X := arg_B s\<rparr>;
             p1 = m_matrix (arg_A s1);
             p2 = m_matrix (arg_X s1)
         in if n = 1 then
              (if p1 ! 0 = 0 then (Singular_Matrix, s1)
               else (case solve_1x1 m p1 p2 of (p1', p2') \<Rightarrow> (Done, put_buffers p1' p2' s1)))
            else
              (case gj_reduce n m 0 (p1, p2, replicate n 0, replicate n 0, replicate n 0, 0, 0) of
                 Inl (p1', p2') \<Rightarrow> (Singular_Matrix, put_buffers p1' p2' s1)
               | Inr (p1', p2', pivotflg, row_indx, col_indx, irow, icol) \<Rightarrow>
                   (Done, put_buffers (gj_unscramble n row_indx col_indx p1') p2' s1))))"

subsection \<open>\<open>MP_GaussElimination\<close>\<close>

text \<open>
  The pivot search visits the entries of column \<open>col\<close> below the diagonal; \<open>d1\<close> points
  to the entry of the running \<open>pivot\<close> row and \<open>d2\<close> to the entry of \<open>row\<close>.
\<close>

definition ge_find_pivot :: "nat \<Rightarrow> real list \<Rightarrow> nat \<Rightarrow> nat" where
  "ge_find_pivot n p1 col =
     fold (\<lambda>row pivot. if MP_abs (p1 ! (pivot * n + col)) < MP_abs (p1 ! (row * n + col))
                        then row else pivot)
          [col + 1..<n] col"

definition ge_eliminate_row :: "nat \<Rightarrow> nat \<Rightarrow> nat \<Rightarrow> nat \<Rightarrow> real list \<times> real list \<Rightarrow> real list \<times> real list" where
  "ge_eliminate_row n m col row ps =
     (case ps of (p1, p2) \<Rightarrow>
        if p1 ! (row * n + col) \<noteq> 0 then
          (let r = p1 ! (row * n + col) / p1 ! (col * n + col);
               p1a = p1[row * n + col := 0];
               p1b = sub_row r n (col + 1) row col p1a;
               p2b = sub_row r m 0 row col p2
           in (p1b, p2b))
        else (p1, p2))"

definition ge_column :: "nat \<Rightarrow> nat \<Rightarrow> nat \<Rightarrow> real list \<times> real list \<Rightarrow> (real list \<times> real list) + (real list \<times> real list)" where
  "ge_column n m col ps =
     (case ps of (p1, p2) \<Rightarrow>
        (let pivot = ge_find_pivot n p1 col in
         if p1 ! (pivot * n + col) = 0 then Inl (p1, p2)
         else
           (let p1a = (if pivot \<noteq> col then swap_rows n pivot col p1 else p1);
                p2a = (if pivot \<noteq> col then swap_rows m pivot col p2 else p2)
            in Inr (fold (ge_eliminate_row n m col) [col + 1..<n] (p1a, p2a)))))"

function ge_forward :: "nat \<Rightarrow> nat \<Rightarrow> nat \<Rightarrow> real list \<times> real list \<Rightarrow> (real list \<times> real list) + (real list \<times> real list)" where
  "ge_forward n m col ps =
     (if col < n - 1 then
        (case ge_column n m col ps of
           Inl ps' \<Rightarrow> Inl ps'
         | Inr ps' \<Rightarrow> ge_forward n m (col + 1) ps')
      else Inr ps)"
  by pat_completeness auto
termination
  by (relation "measure (\<lambda>(n, m, col, ps). n - col)") auto

text \<open>
  Backward substitution. The innermost loop runs \<open>col\<close> from \<open>n-1\<close> down to \<open>row+1\<close>
  with \<open>d2\<close> at \<open>p2[col*m + i]\<close>; it leaves \<open>col = row\<close> and \<open>d2 = &p2[row*m + i]\<close>.
\<close>

definition ge_back_sum :: "nat \<Rightarrow> nat \<Rightarrow> real list \<Rightarrow> real list \<Rightarrow> nat \<Rightarrow> nat \<Rightarrow> real" where
  "ge_back_sum n m p1 p2 row i =
     fold (\<lambda>col sum. sum - p1 ! (row * n + col) * p2 ! (col * m + i)) (rev [row + 1..<n])
          (p2 ! (row * m + i))"

definition ge_back_row :: "nat \<Rightarrow> nat \<Rightarrow> real list \<Rightarrow> nat \<Rightarrow> real list \<Rightarrow> real list" where
  "ge_back_row n m p1 row p2 =
     fold (\<lambda>i p2. p2[row * m + i := ge_back_sum n m p1 p2 row i / p1 ! (row * n + row)]) [0..<m] p2"

definition ge_back_substitution :: "nat \<Rightarrow> nat \<Rightarrow> real list \<Rightarrow> real list \<Rightarrow> real list" where
  "ge_back_substitution n m p1 p2 = fold (ge_back_row n m p1) (rev [0..<n]) p2"

definition MP_GaussElimination :: "gauss_args \<Rightarrow> report \<times> gauss_args" where
  "MP_GaussElimination s =
     (if \<not> (m_rows (arg_A s) = m_cols (arg_A s) \<and> m_rows (arg_A s) = m_rows (arg_B s))
      then (Assertion_Abort, s)
      else
        (let n = m_cols (arg_A s);
             m = m_cols (arg_B s);
             s1 = s\<lparr>arg_X := arg_B s\<rparr>;
             p1 = m_matrix (arg_A s1);
             p2 = m_matrix (arg_X s1)
         in if n = 1 then
              (if p1 ! 0 = 0 then (Singular_Matrix, s1)
               else (case solve_1x1 m p1 p2 of (p1', p2') \<Rightarrow> (Done, put_buffers p1' p2' s1)))
            else
              (case ge_forward n m 0 (p1, p2) of
                 Inl (p1', p2') \<Rightarrow> (Singular_Matrix, put_buffers p1' p2' s1)
               | Inr (p1', p2') \<Rightarrow>
                   (Done, put_buffers p1' (ge_back_substitution n m p1' p2') s1))))"

section \<open>Double arithmetic\<close>

text \<open>
  The tridiagonal solver compares its pivots with zero by \<open>==\<close>, so which inputs take the
  failure branch depends on how the machine rounds. Its embedding therefore takes the
  arithmetic as a parameter: the three operations on \<open>double\<close> that the function uses.
  A finite \<open>double\<close> is a real number; \<^term>\<open>0::real\<close> stands for both signed zeros,
  which \<open>==\<close> does not tell apart.
\<close>

record arithmetic =
  op_sub :: "real \<Rightarrow> real \<Rightarrow> real"
  op_mul :: "real \<Rightarrow> real \<Rightarrow> real"
  op_div :: "real \<Rightarrow> real \<Rightarrow> real"

text \<open>Arithmetic without rounding.\<close>

definition exact :: arithmetic where
  "exact = \<lparr>op_sub = (-), op_mul = (*), op_div = (/)\<rparr>"

text \<open>
  IEEE 754 binary64 with the default rounding, which is what \<open>double\<close> is on the
  platforms of this code: every operation returns the exact result rounded to the nearest
  number with a significand of 53 bits, a tie going to the even significand. For
  \<open>2^e \<le> |x| < 2^(e+1)\<close> the numbers are spaced \<open>2^(e-52)\<close> apart; below \<open>2^-1022\<close> the
  spacing stays \<open>2^-1074\<close>. \<open>scale_exp\<close> finds \<open>e\<close> by halving or doubling, at most 1100
  times, which covers the range of the format. Overflow to infinity is not modelled.
\<close>

fun scale_exp :: "nat \<Rightarrow> real \<Rightarrow> int \<Rightarrow> int" where
  "scale_exp 0 x e = e"
| "scale_exp (Suc k) x e =
     (if 2 \<le> x then scale_exp k (x / 2) (e + 1)
      else if x < 1 then scale_exp k (x * 2) (e - 1)
      else e)"

definition pow2 :: "int \<Rightarrow> real" where
  "pow2 k = (if 0 \<le> k then 2 ^ nat k else 1 / 2 ^ nat (- k))"

definition round_even :: "real \<Rightarrow> int" where
  "round_even x =
     (let f = \<lfloor>x\<rfloor> in
      if x - of_int f < 1 / 2 then f
      else if 1 / 2 < x - of_int f then f + 1
      else if even f then f else f + 1)"

definition round64 :: "real \<Rightarrow> real" where
  "round64 x =
     (if x = 0 then 0
      else
        (let e = max (scale_exp 1100 \<bar>x\<bar> 0) (- 1022);
             u = pow2 (e - 52)
         in of_int (round_even (x / u)) * u))"

definition binary64 :: arithmetic where
  "binary64 = \<lparr>op_sub = (\<lambda>x y. round64 (x - y)),
               op_mul = (\<lambda>x y. round64 (x * y)),
               op_div = (\<lambda>x y. round64 (x / y))\<rparr>"

section \<open>Tridiagonal solver\<close>

text \<open>
  \<open>MPband.tpp\<close>. \<open>A\<close> is read through the pointer \<open>r = &A[0]\<close>, three entries per row
  (sub-diagonal, diagonal, super-diagonal); \<open>B\<close> is the right-hand side, overwritten
  through \<open>r = &B[0]\<close>. The function reports on \<open>std::cerr\<close> and returns when the first
  diagonal entry or a later pivot is zero. Reads and writes through the raw pointers
  outside a buffer are \<^const>\<open>Out_Of_Bounds\<close>. The scratch array \<open>C\<close> is allocated
  without initialisation; its entry 0 is never read, and the model starts it with zeros.
  The first parameter is the arithmetic of \<open>double\<close>.
\<close>

datatype tri_report = Tri_Done | Triv_Soln | Zero_Pivot

text \<open>
  The forward substitution loop \<open>for(i=1; i<n; i++)\<close>:
  \<open>C[i] = c[i-1] / pivot; pivot = b[i] - a[i]*C[i]; if(pivot == 0) return;
  r[i] = (r[i] - a[i]*r[i-1]) / pivot\<close>.
\<close>

function tri_forward ::
  "arithmetic \<Rightarrow> nat \<Rightarrow> real list \<Rightarrow> real list \<Rightarrow> real list \<Rightarrow> nat \<Rightarrow> real list \<Rightarrow> real \<Rightarrow> real list
     \<Rightarrow> fault + (tri_report \<times> real list \<times> real list)" where
  "tri_forward ar n a b c i C pivot r =
     (if i < n then
        (let C' = C[i := op_div ar (c ! (i - 1)) pivot];
             pivot' = op_sub ar (b ! i) (op_mul ar (a ! i) (C' ! i))
         in if pivot' = 0 then Inr (Zero_Pivot, C', r)
            else if i < length r
              then tri_forward ar n a b c (i + 1) C' pivot'
                     (r[i := op_div ar (op_sub ar (r ! i) (op_mul ar (a ! i) (r ! (i - 1)))) pivot'])
              else Inl Out_Of_Bounds)
      else Inr (Tri_Done, C, r))"
  by pat_completeness auto
termination
  by (relation "measure (\<lambda>(ar, n, a, b, c, i, C, pivot, r). n - i)") auto

text \<open>Backsubstitution: \<open>for (i=n-2; i>=0; i--) r[i] -= (C[i+1] * r[i+1])\<close>.\<close>

definition tri_backward :: "arithmetic \<Rightarrow> nat \<Rightarrow> real list \<Rightarrow> real list \<Rightarrow> real list" where
  "tri_backward ar n C r =
     fold (\<lambda>i r. r[i := op_sub ar (r ! i) (op_mul ar (C ! (i + 1)) (r ! (i + 1)))]) (rev [0..<n - 1]) r"

definition MP_tridiagonal :: "arithmetic \<Rightarrow> MatrixN \<Rightarrow> real list \<Rightarrow> fault + (tri_report \<times> real list)" where
  "MP_tridiagonal ar A B =
     (let n = m_rows A in
      if length (m_matrix A) < 3 * n \<or> n = 0 then Inl Out_Of_Bounds
      else
        (let a = map (\<lambda>i. m_matrix A ! (3 * i)) [0..<n];
             b = map (\<lambda>i. m_matrix A ! (3 * i + 1)) [0..<n];
             c = map (\<lambda>i. m_matrix A ! (3 * i + 2)) [0..<n];
             r = B
         in if b ! 0 = 0 then Inr (Triv_Soln, r)
            else if length r = 0 then Inl Out_Of_Bounds
            else
              (case tri_forward ar n a b c 1 (replicate n 0) (b ! 0) (r[0 := op_div ar (r ! 0) (b ! 0)]) of
                 Inl e \<Rightarrow> Inl e
               | Inr (Zero_Pivot, C, r') \<Rightarrow> Inr (Zero_Pivot, r')
               | Inr (Triv_Soln, C, r') \<Rightarrow> Inr (Triv_Soln, r')
               | Inr (Tri_Done, C, r') \<Rightarrow> Inr (Tri_Done, tri_backward ar n C r'))))"

text \<open>
  The pivots of the forward sweep, as the source computes them from the three bands:
  \<open>pivot = b[0]\<close>, then \<open>pivot = b[i] - a[i] * (c[i-1] / pivot)\<close>.
\<close>

fun tri_pivot :: "arithmetic \<Rightarrow> real list \<Rightarrow> real list \<Rightarrow> real list \<Rightarrow> nat \<Rightarrow> real" where
  "tri_pivot ar a b c 0 = b ! 0"
| "tri_pivot ar a b c (Suc i) =
     op_sub ar (b ! Suc i) (op_mul ar (a ! Suc i) (op_div ar (c ! i) (tri_pivot ar a b c i)))"

text \<open>The bands of an \<open>N\<close>-by-3 band matrix.\<close>

definition band :: "nat \<Rightarrow> MatrixN \<Rightarrow> real list" where
  "band k A = map (\<lambda>i. m_matrix A ! (3 * i + k)) [0..<m_rows A]"

text \<open>
  \<open>x\<close> solves the tridiagonal system with sub-diagonal \<open>a\<close>, diagonal \<open>b\<close>,
  super-diagonal \<open>c\<close> and right-hand side \<open>r\<close> (\<open>a[0]\<close> and \<open>c[n-1]\<close> lie outside the
  matrix and do not enter).
\<close>

definition tri_solves :: "nat \<Rightarrow> real list \<Rightarrow> real list \<Rightarrow> real list \<Rightarrow> real list \<Rightarrow> real list \<Rightarrow> bool" where
  "tri_solves n a b c r x =
     (\<forall>i<n. (if i = 0 then 0 else a ! i * x ! (i - 1)) + b ! i * x ! i
              + (if i + 1 = n then 0 else c ! i * x ! (i + 1)) = r ! i)"

text \<open>
  The values that the forward sweep leaves in the right-hand side:
  \<open>r[0] / b[0]\<close>, then \<open>(r[i] - a[i] * r[i-1]) / pivot\<close>.
\<close>

fun tri_sweep :: "arithmetic \<Rightarrow> real list \<Rightarrow> real list \<Rightarrow> real list \<Rightarrow> real list \<Rightarrow> nat \<Rightarrow> real" where
  "tri_sweep ar a b c r 0 = op_div ar (r ! 0) (b ! 0)"
| "tri_sweep ar a b c r (Suc i) =
     op_div ar (op_sub ar (r ! Suc i) (op_mul ar (a ! Suc i) (tri_sweep ar a b c r i)))
       (tri_pivot ar a b c (Suc i))"

section \<open>Quaternion and rotation matrix\<close>

text \<open>
  \<open>Quaternion.h\<close>. A quaternion holds the four doubles \<open>m_quat[0..3]\<close>, the components
  \<open>x\<close>, \<open>y\<close>, \<open>z\<close>, \<open>w\<close>. The two conversion templates accept any matrix class
  (\<open>Matrix3\<close>, \<open>Matrix4\<close>, \<open>MatrixN\<close>); all three are a row count, a column count and a
  row-major buffer, the record \<^typ>\<open>MatrixN\<close>.
\<close>

datatype Quaternion = Quat (q_x: real) (q_y: real) (q_z: real) (q_w: real)

text \<open>
  Modelled from the spec: the element access \<open>operator()(i, j)\<close> and \<open>transpose()\<close> of the
  matrix classes, whose implementation files are not among the sources. "Storage is
  row-major everywhere": element \<open>(i, j)\<close> of a matrix with \<open>m_cols\<close> columns is
  \<open>m_matrix[i * m_cols + j]\<close>; the access is bounds-checked, which the two conversions
  below test before their first access. \<open>transpose()\<close> returns a new matrix with rows
  and columns exchanged and does not change its receiver.
\<close>

definition elem :: "MatrixN \<Rightarrow> nat \<Rightarrow> nat \<Rightarrow> real" where
  "elem M i j = m_matrix M ! (i * m_cols M + j)"

definition set_elem :: "MatrixN \<Rightarrow> nat \<Rightarrow> nat \<Rightarrow> real \<Rightarrow> MatrixN" where
  "set_elem M i j v = M\<lparr>m_matrix := (m_matrix M)[i * m_cols M + j := v]\<rparr>"

definition transpose_matrix :: "MatrixN \<Rightarrow> MatrixN" where
  "transpose_matrix M =
     \<lparr>m_rows = m_cols M, m_cols = m_rows M,
      m_matrix = map (\<lambda>k. elem M (k mod m_rows M) (k div m_rows M)) [0..<m_cols M * m_rows M]\<rparr>"

text \<open>
  Modelled from the spec: \<open>Quaternion::norm\<close> and \<open>Quaternion::normalize\<close>
  (\<open>Quaternion.cpp\<close> is not among the sources). \<open>norm\<close> is the square root of the sum of
  squares; \<open>normalize\<close> scales to unit norm and fails with a degenerate-vector error,
  leaving the value unmodified, when the norm is below a small epsilon. The epsilon is a
  parameter.
\<close>

definition Quaternion_norm :: "Quaternion \<Rightarrow> real" where
  "Quaternion_norm q = sqrt (q_x q * q_x q + q_y q * q_y q + q_z q * q_z q + q_w q * q_w q)"

definition Quaternion_normalize :: "real \<Rightarrow> Quaternion \<Rightarrow> fault + Quaternion" where
  "Quaternion_normalize eps q =
     (if Quaternion_norm q < eps then Inl Degenerate_Vector
      else Inr (Quat (q_x q / Quaternion_norm q) (q_y q / Quaternion_norm q)
                     (q_z q / Quaternion_norm q) (q_w q / Quaternion_norm q)))"

subsection \<open>\<open>MP_matrixToQuaternion\<close>\<close>

text \<open>The four derivations of the source, one per branch of its \<open>if\<close> chain.\<close>

definition quat_from_rr :: "MatrixN \<Rightarrow> real \<Rightarrow> Quaternion" where
  "quat_from_rr R rr =
     (let r4 = sqrt (rr * 4) in
      Quat ((elem R 1 2 - elem R 2 1) / r4)
           ((elem R 2 0 - elem R 0 2) / r4)
           ((elem R 0 1 - elem R 1 0) / r4)
           (r4 / 4))"

definition quat_from_xx :: "MatrixN \<Rightarrow> real \<Rightarrow> Quaternion" where
  "quat_from_xx R xx =
     (let x4 = sqrt (xx * 4) in
      Quat (x4 / 4)
           ((elem R 0 1 + elem R 1 0) / x4)
           ((elem R 0 2 + elem R 2 0) / x4)
           ((elem R 1 2 - elem R 2 1) / x4))"

definition quat_from_yy :: "MatrixN \<Rightarrow> real \<Rightarrow> Quaternion" where
  "quat_from_yy R yy =
     (let y4 = sqrt (yy * 4) in
      Quat ((elem R 0 1 + elem R 1 0) / y4)
           (y4 / 4)
           ((elem R 1 2 + elem R 2 1) / y4)
           ((elem R 2 0 - elem R 0 2) / y4))"

definition quat_from_zz :: "MatrixN \<Rightarrow> real \<Rightarrow> Quaternion" where
  "quat_from_zz R zz =
     (let z4 = sqrt (zz * 4) in
      Quat ((elem R 0 2 + elem R 2 0) / z4)
           ((elem R 1 2 + elem R 2 1) / z4)
           (z4 / 4)
           ((elem R 0 1 - elem R 1 0) / z4))"

definition MP_matrixToQuaternion :: "MatrixN \<Rightarrow> fault + Quaternion" where
  "MP_matrixToQuaternion A =
     (let R = transpose_matrix A in
      if m_rows R < 3 \<or> m_cols R < 3 then Inl Out_Of_Bounds
      else
        (let d0 = elem R 0 0; d1 = elem R 1 1; d2 = elem R 2 2;
             xx = 1 + d0 - d1 - d2;
             yy = 1 - d0 + d1 - d2;
             zz = 1 - d0 - d1 + d2;
             rr = 1 + d0 + d1 + d2;
             max0 = rr;
             max1 = (if xx > max0 then xx else max0);
             max2 = (if yy > max1 then yy else max1);
             max3 = (if zz > max2 then zz else max2)
         in if rr = max3 then Inr (quat_from_rr R rr)
            else if xx = max3 then Inr (quat_from_xx R xx)
            else if yy = max3 then Inr (quat_from_yy R yy)
            else Inr (quat_from_zz R zz)))"

text \<open>
  The selection rule in the words of the specification: of the candidates, listed in
  evaluation order with the branch each stands for, the first one that attains the
  maximum.
\<close>

datatype basis = Basis_rr | Basis_xx | Basis_yy | Basis_zz

definition first_largest :: "('k \<times> real) list \<Rightarrow> 'k" where
  "first_largest kvs = fst (hd (filter (\<lambda>kv. snd kv = Max (snd ` set kvs)) kvs))"

fun derive_quaternion :: "basis \<Rightarrow> MatrixN \<Rightarrow> real \<Rightarrow> Quaternion" where
  "derive_quaternion Basis_rr R v = quat_from_rr R v"
| "derive_quaternion Basis_xx R v = quat_from_xx R v"
| "derive_quaternion Basis_yy R v = quat_from_yy R v"
| "derive_quaternion Basis_zz R v = quat_from_zz R v"

subsection \<open>\<open>MP_quaternionToMatrix\<close>\<close>

definition MP_quaternionToMatrix :: "real \<Rightarrow> Quaternion \<Rightarrow> MatrixN \<Rightarrow> fault + MatrixN" where
  "MP_quaternionToMatrix eps r R =
     (case Quaternion_normalize eps r of
        Inl e \<Rightarrow> Inl e
      | Inr q \<Rightarrow>
          if m_rows R < 3 \<or> m_cols R < 3 then Inl Out_Of_Bounds
          else
            (let x = q_x q; y = q_y q; z = q_z q; w = q_w q;
                 R1 = set_elem R 0 0 (w * w + x * x - y * y - z * z);
                 R2 = set_elem R1 1 0 (2 * x * y + 2 * w * z);
                 R3 = set_elem R2 2 0 (2 * x * z - 2 * w * y);
                 R4 = set_elem R3 0 1 (2 * x * y - 2 * w * z);
                 R5 = set_elem R4 1 1 (w * w - x * x + y * y - z * z);
                 R6 = set_elem R5 2 1 (2 * y * z + 2 * w * x);
                 R7 = set_elem R6 0 2 (2 * x * z + 2 * w * y);
                 R8 = set_elem R7 1 2 (2 * y * z - 2 * w * x);
                 R9 = set_elem R8 2 2 (w * w - x * x - y * y + z * z)
             in if m_rows R > 3 \<and> m_cols R > 3 then
                  (let Ra = set_elem R9 0 3 0;
                       Rb = set_elem Ra 1 3 0;
                       Rc = set_elem Rb 2 3 0;
                       Rd = set_elem Rc 3 0 0;
                       Re = set_elem Rd 3 1 0;
                       Rf = set_elem Re 3 2 0;
                       Rg = set_elem Rf 3 3 (w * w + x * x + y * y + z * z)
                   in Inr Rg)
                else Inr R9))"

subsection \<open>Rotation matrices\<close>

text \<open>
  A 3-by-3 rotation matrix: the rows are orthonormal and the determinant is 1.
  \<open>Quaternion_neg\<close> is the unary minus of the quaternion class.
\<close>

definition row_dot :: "MatrixN \<Rightarrow> nat \<Rightarrow> nat \<Rightarrow> real" where
  "row_dot A i j = elem A i 0 * elem A j 0 + elem A i 1 * elem A j 1 + elem A i 2 * elem A j 2"

definition det3 :: "MatrixN \<Rightarrow> real" where
  "det3 A = elem A 0 0 * (elem A 1 1 * elem A 2 2 - elem A 1 2 * elem A 2 1)
          - elem A 0 1 * (elem A 1 0 * elem A 2 2 - elem A 1 2 * elem A 2 0)
          + elem A 0 2 * (elem A 1 0 * elem A 2 1 - elem A 1 1 * elem A 2 0)"

definition rotation_matrix :: "MatrixN \<Rightarrow> bool" where
  "rotation_matrix A =
     (wf_matrix A \<and> m_rows A = 3 \<and> m_cols A = 3 \<and>
      row_dot A 0 0 = 1 \<and> row_dot A 1 1 = 1 \<and> row_dot A 2 2 = 1 \<and>
      row_dot A 0 1 = 0 \<and> row_dot A 0 2 = 0 \<and> row_dot A 1 2 = 0 \<and>
      det3 A = 1)"

definition Quaternion_neg :: "Quaternion \<Rightarrow> Quaternion" where
  "Quaternion_neg q = Quat (- q_x q) (- q_y q) (- q_z q) (- q_w q)"

section \<open>Matrix product and identity\<close>



text \<open>
  Index bookkeeping for the proofs: the exchange of two row (or column) indices, and the
  entry \<open>(i, j)\<close> of a buffer of row width \<open>w\<close>.
\<close>

definition swap_idx :: "nat \<Rightarrow> nat \<Rightarrow> nat \<Rightarrow> nat" where
  "swap_idx a b i = (if i = a then b else if i = b then a else i)"

















section \<open>Row-major indices\<close>

lemma index_row_major_inj:
  fixes i j i' j' c :: nat
  assumes "j < c" "j' < c"
  shows "i * c + j = i' * c + j' \<longleftrightarrow> i = i' \<and> j = j'"
proof
  assume eq: "i * c + j = i' * c + j'"
  from assms have "(i * c + j) div c = i" "(i' * c + j') div c = i'" by simp_all
  with eq have "i = i'" by simp
  with eq show "i = i' \<and> j = j'" by simp
qed simp

lemma index_row_major_less:
  fixes i j r c :: nat
  assumes "i < r" "j < c"
  shows "i * c + j < r * c"
proof -
  have "i * c + j < i * c + c" using assms by simp
  also have "\<dots> = Suc i * c" by simp
  also have "\<dots> \<le> r * c" using assms by (intro mult_le_mono1) simp
  finally show ?thesis .
qed

section \<open>Properties of \<open>MP_swap\<close>\<close>

lemma MP_swap_distinct:
  "MP_swap s a b = s(a := s b, b := s a)"
  unfolding MP_swap_def Let_def by (rule refl)

lemma xor_word_cancel:
  fixes x y :: "32 word"
  shows "y XOR x XOR y = x" and "(x XOR y) XOR y XOR x XOR y = y"
  by (simp_all add: ac_simps)

lemma MP_swap_int_distinct:
  "a \<noteq> b \<Longrightarrow> MP_swap_int s a b = s(a := s b, b := s a)"
  by (auto simp: MP_swap_int_def Let_def fun_eq_iff xor_word_cancel)

text \<open>
  Claim C10. Through the \<open>int\<close> overload, \<open>MP_swap(x, x)\<close> leaves \<open>x == 0\<close> whatever the
  value of \<open>x\<close> was, and changes nothing else; the generic template leaves an aliased
  argument (and the whole store) unchanged.
\<close>

theorem MP_swap_int_aliased:
  "MP_swap_int s a a = s(a := 0) \<and> MP_swap s a a = s"
  by (simp add: MP_swap_int_def MP_swap_def Let_def fun_eq_iff)

section \<open>Diagonal get and set\<close>

declare getDiag_copy.simps [simp del] setDiag_copy.simps [simp del] getDiag_pad.simps [simp del]

lemma getDiag_copy_frame:
  "getDiag_copy a l mx m p i u = Inr (k, u1) \<Longrightarrow>
     i \<le> k \<and> length u1 = length u \<and> (\<forall>j<i. u1 ! j = u ! j)"
proof (induction a l mx m p i u rule: getDiag_copy.induct)
  case (1 a l mx m p i u)
  show ?case
  proof (cases "i < l \<and> \<not> int i \<ge> mx")
    case False
    with "1.prems" show ?thesis
      by (auto simp: getDiag_copy.simps [of a l mx m p i u] split: if_splits)
  next
    case True
    with "1.prems" have inb: "p < length a"
      and rec: "getDiag_copy a l mx m (p + (m + 1)) (i + 1) (u[i := a ! p]) = Inr (k, u1)"
      by (auto simp: getDiag_copy.simps [of a l mx m p i u] split: if_splits)
    from "1.IH" [OF _ _ inb rec] True
    have "i + 1 \<le> k \<and> length u1 = length (u[i := a ! p]) \<and>
          (\<forall>j<i + 1. u1 ! j = (u[i := a ! p]) ! j)"
      by simp
    then show ?thesis by auto
  qed
qed

lemma getDiag_pad_frame:
  "length (getDiag_pad n i u) = length u \<and> (\<forall>j<i. getDiag_pad n i u ! j = u ! j)"
proof (induction n i u rule: getDiag_pad.induct)
  case (1 n i u)
  show ?case
  proof (cases "i < n")
    case True
    with "1.IH" show ?thesis
      by (simp add: getDiag_pad.simps [of n i u])
  next
    case False
    then show ?thesis by (simp add: getDiag_pad.simps [of n i u])
  qed
qed

lemma getDiag_pad_zero:
  "i \<le> j \<Longrightarrow> j < n \<Longrightarrow> n \<le> length u \<Longrightarrow> getDiag_pad n i u ! j = 0"
proof (induction n i u rule: getDiag_pad.induct)
  case (1 n i u)
  from "1.prems" have lt: "i < n" by simp
  then have unf: "getDiag_pad n i u = getDiag_pad n (i + 1) (u[i := 0])"
    by (simp add: getDiag_pad.simps [of n i u])
  show ?case
  proof (cases "i = j")
    case True
    have "getDiag_pad n (i + 1) (u[i := 0]) ! i = (u[i := 0]) ! i"
      using getDiag_pad_frame [of n "i + 1" "u[i := 0]"] by simp
    with "1.prems" lt have "getDiag_pad n (i + 1) (u[i := 0]) ! i = 0" by simp
    with unf True show ?thesis by simp
  next
    case False
    with "1.IH" [OF lt] "1.prems" have "getDiag_pad n (i + 1) (u[i := 0]) ! j = 0" by simp
    with unf show ?thesis by simp
  qed
qed

lemma setDiag_copy_after_getDiag_copy:
  "getDiag_copy a l mx m p i u = Inr (k, u1) \<Longrightarrow> mx \<le> int (length u) \<Longrightarrow>
   \<forall>j. i \<le> j \<and> j < k \<longrightarrow> u2 ! j = u1 ! j \<Longrightarrow>
   setDiag_copy u2 l mx m p i a = Inr a"
proof (induction a l mx m p i u rule: getDiag_copy.induct)
  case (1 a l mx m p i u)
  show ?case
  proof (cases "i < l \<and> \<not> int i \<ge> mx")
    case False
    then show ?thesis
      by (auto simp: setDiag_copy.simps [of u2 l mx m p i a])
  next
    case True
    with "1.prems" have inb: "p < length a"
      and rec: "getDiag_copy a l mx m (p + (m + 1)) (i + 1) (u[i := a ! p]) = Inr (k, u1)"
      by (auto simp: getDiag_copy.simps [of a l mx m p i u] split: if_splits)
    from True "1.prems"(2) have iu: "i < length u" by linarith
    from getDiag_copy_frame [OF rec] iu have k: "i + 1 \<le> k" and u1i: "u1 ! i = a ! p"
      by auto
    from "1.prems"(3) k have u2i: "u2 ! i = a ! p" using u1i by simp
    have "setDiag_copy u2 l mx m (p + (m + 1)) (i + 1) a = Inr a"
      using "1.IH" [OF _ _ inb rec] True "1.prems"(2,3) by simp
    with True inb u2i show ?thesis
      by (simp add: setDiag_copy.simps [of u2 l mx m p i a])
  qed
qed

text \<open>
  Whenever \<open>MP_getDiag\<close> returns normally, writing its result back with \<open>MP_setDiag\<close> at
  the same offset returns normally and leaves the matrix as it was.
\<close>

lemma MP_setDiag_MP_getDiag:
  assumes "MP_getDiag A d u = Inr u'"
  shows "MP_setDiag u' A d = Inr A"
proof -
  define l where "l = m_rows A"
  define m where "m = m_cols A"
  define n where "n = length u"
  define mx where "mx = (if d \<ge> 0 then MP_min (int m - d) (int n) else MP_min (int l + d) (int n))"
  define p where "p = (if d \<ge> 0 then nat d else nat (- d * int m))"
  note defs = l_def m_def n_def mx_def p_def
  have valid: "if d \<ge> 0 then d < int l else MP_abs d < int l"
    using assms by (auto simp: MP_getDiag_def Let_def defs split: if_splits)
  from assms valid obtain k u1 where
    cp: "getDiag_copy (m_matrix A) l mx m p 0 u = Inr (k, u1)" and u': "u' = getDiag_pad n k u1"
    by (auto simp: MP_getDiag_def Let_def defs split: if_splits sum.splits)
  have len: "length u' = n"
    using getDiag_copy_frame [OF cp] getDiag_pad_frame [of n k u1] by (simp add: u' defs)
  have mxn: "mx \<le> int (length u)"
    by (simp add: defs MP_min_def defs)
  have "\<forall>j. 0 \<le> j \<and> j < k \<longrightarrow> u' ! j = u1 ! j"
    using getDiag_pad_frame [of n k u1] by (simp add: u')
  from setDiag_copy_after_getDiag_copy [OF cp mxn this]
  have "setDiag_copy u' l mx m p 0 (m_matrix A) = Inr (m_matrix A)" .
  with valid len show ?thesis
    by (auto simp: MP_setDiag_def Let_def defs split: if_splits)
qed

lemma MP_getDiag_length:
  "MP_getDiag A d u = Inr u' \<Longrightarrow> length u' = length u"
  using getDiag_copy_frame getDiag_pad_frame
  by (fastforce simp: MP_getDiag_def Let_def split: if_splits sum.splits)

text \<open>
  Claim C8. The round trip \<open>MP_setDiag(MP_getDiag(A, d, u), A, d)\<close> and the zero padding
  beyond the diagonal's length, evaluated on tall matrices with a negative offset.
  On the 3-by-1 matrix with rows 1, 2, 3, offset \<open>-1\<close> and a vector of size 2, the copy
  count is \<open>MP_min(l + d, n) = 2\<close>, the diagonal has the single element \<open>A(1,0)\<close>, and the
  second read is at offset 3 of a 3-element buffer. On the 4-by-1 matrix with rows
  1, 2, 3, 4 the second read stays in the buffer and delivers \<open>A(3,0) = 4\<close> in a vector
  position beyond the diagonal's length, where the padding value 0 belongs.
\<close>

theorem MP_getDiag_tall_negative_offset:
  "MP_getDiag \<lparr>m_rows = 3, m_cols = 1, m_matrix = [1, 2, 3]\<rparr> (- 1) [9, 9] = Inl Out_Of_Bounds \<and>
   MP_getDiag \<lparr>m_rows = 4, m_cols = 1, m_matrix = [1, 2, 3, 4]\<rparr> (- 1) [9, 9] = Inr [2, 4]"
  by (simp add: MP_getDiag_def MP_min_def MP_abs_def getDiag_copy.simps getDiag_pad.simps)

section \<open>The right-hand side is an input of both solvers\<close>

declare gj_reduce.simps [simp del] ge_forward.simps [simp del]

lemma arg_B_put_buffers: "arg_B (put_buffers p1 p2 s) = arg_B s"
  by (simp add: put_buffers_def)

lemma MP_GaussJordan_arg_B: "arg_B (snd (MP_GaussJordan s)) = arg_B s"
  unfolding MP_GaussJordan_def Let_def
  by (simp add: arg_B_put_buffers split: sum.split prod.split)

lemma MP_GaussElimination_arg_B: "arg_B (snd (MP_GaussElimination s)) = arg_B s"
  unfolding MP_GaussElimination_def Let_def
  by (simp add: arg_B_put_buffers split: sum.split prod.split)

text \<open>
  Claim C9. Whatever the report (completion, singular matrix, failed assertion), neither
  \<open>MP_GaussJordan\<close> nor \<open>MP_GaussElimination\<close> changes the object \<open>B\<close>: \<open>B\<close> is copied
  into \<open>X\<close> at entry, and every later write goes to the buffers of \<open>A\<close> and \<open>X\<close>.
\<close>

theorem Gauss_solvers_leave_B:
  "arg_B (snd (MP_GaussJordan s)) = arg_B s \<and> arg_B (snd (MP_GaussElimination s)) = arg_B s"
  by (simp add: MP_GaussJordan_arg_B MP_GaussElimination_arg_B)

section \<open>The tridiagonal solver\<close>

declare tri_forward.simps [simp del]

lemma exact_ops [simp]:
  "op_sub exact = (-)" "op_mul exact = (*)" "op_div exact = (/)"
  by (simp_all add: exact_def)

lemma scale_exp_numeral:
  "scale_exp (numeral k) x e =
     (if 2 \<le> x then scale_exp (pred_numeral k) (x / 2) (e + 1)
      else if x < 1 then scale_exp (pred_numeral k) (x * 2) (e - 1)
      else e)"
  by (simp add: numeral_eq_Suc)

lemmas round64_eval = round64_def scale_exp_numeral pow2_def round_even_def Let_def

text \<open>
  Claim C4. The bands sub = [0,1,1], diag = [2,2,2], super = [1,1,0], stored row by row
  in a 3-by-3 band matrix, with right-hand side [1,2,3]: the solver completes and
  overwrites the right-hand side with [1/2, 0, 3/2], the solution of
  2 x0 + x1 = 1, x0 + 2 x1 + x2 = 2, x1 + 2 x2 = 3. The arithmetic is the one without
  rounding.
\<close>

theorem MP_tridiagonal_example:
  "MP_tridiagonal exact \<lparr>m_rows = 3, m_cols = 3, m_matrix = [0, 2, 1, 1, 2, 1, 1, 2, 0]\<rparr> [1, 2, 3]
     = Inr (Tri_Done, [1 / 2, 0, 3 / 2])"
  by (simp add: MP_tridiagonal_def tri_forward.simps tri_backward_def upt_rec numeral_3_eq_3)

text \<open>
  In binary64 the same run completes with entries that differ from [1/2, 0, 3/2] by
  \<open>2^-53\<close>, \<open>2^-52\<close> and \<open>2^-52\<close>.
\<close>

lemma binary64_run_of_example:
  "MP_tridiagonal binary64 \<lparr>m_rows = 3, m_cols = 3, m_matrix = [0, 2, 1, 1, 2, 1, 1, 2, 0]\<rparr> [1, 2, 3]
     = Inr (Tri_Done, [1 / 2 - 1 / 2 ^ 53, 1 / 2 ^ 52, 3 / 2 - 1 / 2 ^ 52])"
  by (simp add: MP_tridiagonal_def tri_forward.simps tri_backward_def upt_rec numeral_3_eq_3
        binary64_def round64_eval)

lemma tri_forward_stop:
  "n \<le> i \<Longrightarrow> tri_forward ar n a b c i C pivot r = Inr (Tri_Done, C, r)"
  by (subst tri_forward.simps) simp

lemma tri_forward_sweep:
  assumes "1 \<le> i" "i \<le> n" "length rr = n" "length C = n"
    and "pivot = tri_pivot ar a b c (i - 1)"
    and "\<forall>j<i. tri_pivot ar a b c j \<noteq> 0"
    and "\<forall>j<i. rr ! j = tri_sweep ar a b c r0 j"
    and "\<forall>j. i \<le> j \<and> j < n \<longrightarrow> rr ! j = r0 ! j"
    and "\<forall>j. 1 \<le> j \<and> j < i \<longrightarrow> C ! j = op_div ar (c ! (j - 1)) (tri_pivot ar a b c (j - 1))"
  shows "\<exists>rep C' r'. tri_forward ar n a b c i C pivot rr = Inr (rep, C', r') \<and> length r' = n \<and>
           rep \<noteq> Triv_Soln \<and>
           (rep = Tri_Done \<longleftrightarrow> (\<forall>j<n. tri_pivot ar a b c j \<noteq> 0)) \<and>
           (rep = Tri_Done \<longrightarrow> length C' = n \<and> (\<forall>j<n. r' ! j = tri_sweep ar a b c r0 j) \<and>
              (\<forall>j. 1 \<le> j \<and> j < n \<longrightarrow> C' ! j = op_div ar (c ! (j - 1)) (tri_pivot ar a b c (j - 1)))) \<and>
           (\<forall>k<n. tri_pivot ar a b c k = 0 \<longrightarrow> (\<forall>j. k \<le> j \<and> j < n \<longrightarrow> r' ! j = r0 ! j)) \<and>
           (\<forall>k<n. tri_pivot ar a b c k = 0 \<and> (\<forall>j<k. tri_pivot ar a b c j \<noteq> 0) \<longrightarrow>
                  (\<forall>j<k. r' ! j = tri_sweep ar a b c r0 j))"
  using assms
proof (induction "n - i" arbitrary: i C pivot rr)
  case 0
  then have "i = n" by simp
  then have unf: "tri_forward ar n a b c i C pivot rr = Inr (Tri_Done, C, rr)"
    by (simp add: tri_forward_stop)
  from 0 \<open>i = n\<close> show ?case
    unfolding unf by simp
next
  case (Suc d)
  note prems = Suc.prems
  show ?case
  proof (cases "i < n")
    case False
    with Suc.hyps(2) show ?thesis by simp
  next
    case True
    define C' where "C' = C[i := op_div ar (c ! (i - 1)) pivot]"
    define pivot' where "pivot' = op_sub ar (b ! i) (op_mul ar (a ! i) (C' ! i))"
    obtain i' where i': "i = Suc i'" using prems(1) by (cases i) auto
    have C'i: "C' ! i = op_div ar (c ! (i - 1)) (tri_pivot ar a b c (i - 1))"
      using True prems by (simp add: C'_def)
    have piv: "pivot' = tri_pivot ar a b c i"
      using C'i by (simp add: pivot'_def i')
    show ?thesis
    proof (cases "pivot' = 0")
      case True
      have unf: "tri_forward ar n a b c i C pivot rr = Inr (Zero_Pivot, C', rr)"
        using \<open>i < n\<close> True
        by (simp add: tri_forward.simps [of ar n a b c i C pivot rr] Let_def C'_def pivot'_def)
      have "\<forall>k<n. tri_pivot ar a b c k = 0 \<longrightarrow> (\<forall>j. k \<le> j \<and> j < n \<longrightarrow> rr ! j = r0 ! j)"
      proof (intro allI impI)
        fix k j assume "k < n" "tri_pivot ar a b c k = 0" "k \<le> j \<and> j < n"
        with prems(6) have "i \<le> k" by (meson not_le_imp_less)
        with \<open>k \<le> j \<and> j < n\<close> prems(8) show "rr ! j = r0 ! j" by simp
      qed
      moreover have "\<not> (\<forall>j<n. tri_pivot ar a b c j \<noteq> 0)"
        using True piv \<open>i < n\<close> by auto
      moreover have "\<forall>k<n. tri_pivot ar a b c k = 0 \<and> (\<forall>j<k. tri_pivot ar a b c j \<noteq> 0) \<longrightarrow>
                  (\<forall>j<k. rr ! j = tri_sweep ar a b c r0 j)"
      proof (intro allI impI)
        fix k j
        assume "k < n" and k: "tri_pivot ar a b c k = 0 \<and> (\<forall>j<k. tri_pivot ar a b c j \<noteq> 0)"
          and j: "j < k"
        have "\<not> i < k" using k True piv by auto
        with j have "j < i" by simp
        with prems(7) show "rr ! j = tri_sweep ar a b c r0 j" by simp
      qed
      ultimately show ?thesis
        using unf prems(3) by simp
    next
      case False
      define rr' where "rr' = rr[i := op_div ar (op_sub ar (rr ! i) (op_mul ar (a ! i) (rr ! (i - 1)))) pivot']"
      have unf: "tri_forward ar n a b c i C pivot rr = tri_forward ar n a b c (i + 1) C' pivot' rr'"
        using \<open>i < n\<close> False prems(3)
        by (simp add: tri_forward.simps [of ar n a b c i C pivot rr] Let_def C'_def pivot'_def rr'_def)
      have rri: "rr' ! i = tri_sweep ar a b c r0 i"
        using \<open>i < n\<close> prems(3,7,8) piv by (simp add: rr'_def i')
      have a1: "\<forall>j<i + 1. tri_pivot ar a b c j \<noteq> 0"
        using prems(6) False piv by (auto simp: less_Suc_eq)
      have a2: "\<forall>j<i + 1. rr' ! j = tri_sweep ar a b c r0 j"
        using prems(7) rri by (auto simp: less_Suc_eq rr'_def)
      have a3: "\<forall>j. i + 1 \<le> j \<and> j < n \<longrightarrow> rr' ! j = r0 ! j"
        using prems(8) by (auto simp: rr'_def)
      have a4: "\<forall>j. 1 \<le> j \<and> j < i + 1 \<longrightarrow> C' ! j = op_div ar (c ! (j - 1)) (tri_pivot ar a b c (j - 1))"
        using prems(9) C'i by (auto simp: less_Suc_eq C'_def)
      have "\<exists>rep C'' r'. tri_forward ar n a b c (i + 1) C' pivot' rr' = Inr (rep, C'', r') \<and> length r' = n \<and>
           rep \<noteq> Triv_Soln \<and>
           (rep = Tri_Done \<longleftrightarrow> (\<forall>j<n. tri_pivot ar a b c j \<noteq> 0)) \<and>
           (rep = Tri_Done \<longrightarrow> length C'' = n \<and> (\<forall>j<n. r' ! j = tri_sweep ar a b c r0 j) \<and>
              (\<forall>j. 1 \<le> j \<and> j < n \<longrightarrow> C'' ! j = op_div ar (c ! (j - 1)) (tri_pivot ar a b c (j - 1)))) \<and>
           (\<forall>k<n. tri_pivot ar a b c k = 0 \<longrightarrow> (\<forall>j. k \<le> j \<and> j < n \<longrightarrow> r' ! j = r0 ! j)) \<and>
           (\<forall>k<n. tri_pivot ar a b c k = 0 \<and> (\<forall>j<k. tri_pivot ar a b c j \<noteq> 0) \<longrightarrow>
                  (\<forall>j<k. r' ! j = tri_sweep ar a b c r0 j))"
      proof (rule Suc.hyps(1))
        show "d = n - (i + 1)" using Suc.hyps(2) by simp
        show "1 \<le> i + 1" by simp
        show "i + 1 \<le> n" using \<open>i < n\<close> by simp
        show "length rr' = n" using prems(3) by (simp add: rr'_def)
        show "length C' = n" using prems(4) by (simp add: C'_def)
        show "pivot' = tri_pivot ar a b c (i + 1 - 1)" using piv by simp
        show "\<forall>j<i + 1. tri_pivot ar a b c j \<noteq> 0" by (rule a1)
        show "\<forall>j<i + 1. rr' ! j = tri_sweep ar a b c r0 j" by (rule a2)
        show "\<forall>j. i + 1 \<le> j \<and> j < n \<longrightarrow> rr' ! j = r0 ! j" by (rule a3)
        show "\<forall>j. 1 \<le> j \<and> j < i + 1 \<longrightarrow> C' ! j = op_div ar (c ! (j - 1)) (tri_pivot ar a b c (j - 1))"
          by (rule a4)
      qed
      then show ?thesis unfolding unf by simp
    qed
  qed
qed

lemma tri_backward_fold:
  fixes y C :: "real list"
  shows "k < length y \<Longrightarrow>
   length (fold (\<lambda>i r. r[i := op_sub ar (r ! i) (op_mul ar (C ! (i + 1)) (r ! (i + 1)))]) (rev [0..<k]) y)
     = length y \<and>
   (\<forall>j\<ge>k. fold (\<lambda>i r. r[i := op_sub ar (r ! i) (op_mul ar (C ! (i + 1)) (r ! (i + 1)))]) (rev [0..<k]) y ! j
           = y ! j) \<and>
   (\<forall>i<k. fold (\<lambda>i r. r[i := op_sub ar (r ! i) (op_mul ar (C ! (i + 1)) (r ! (i + 1)))]) (rev [0..<k]) y ! i
            = op_sub ar (y ! i) (op_mul ar (C ! (i + 1))
                (fold (\<lambda>i r. r[i := op_sub ar (r ! i) (op_mul ar (C ! (i + 1)) (r ! (i + 1)))]) (rev [0..<k]) y
                   ! (i + 1))))"
proof (induction k arbitrary: y)
  case 0
  then show ?case by simp
next
  case (Suc k)
  define f where "f = (\<lambda>i (r::real list). r[i := op_sub ar (r ! i) (op_mul ar (C ! (i + 1)) (r ! (i + 1)))])"
  define y1 where "y1 = f k y"
  define x where "x = fold f (rev [0..<k]) y1"
  have unf: "fold f (rev [0..<Suc k]) y = x"
    by (simp add: x_def y1_def)
  have ly1: "length y1 = length y" by (simp add: y1_def f_def)
  with Suc.prems have "k < length y1" by simp
  from Suc.IH [OF this] have
    len: "length x = length y1" and
    hi: "\<forall>j\<ge>k. x ! j = y1 ! j" and
    lo: "\<forall>i<k. x ! i = op_sub ar (y1 ! i) (op_mul ar (C ! (i + 1)) (x ! (i + 1)))"
    unfolding f_def [symmetric] x_def [symmetric] by auto
  have y1k: "y1 ! k = op_sub ar (y ! k) (op_mul ar (C ! (k + 1)) (y ! (k + 1)))"
    using Suc.prems by (simp add: y1_def f_def)
  have y1o: "j \<noteq> k \<Longrightarrow> y1 ! j = y ! j" for j
    by (simp add: y1_def f_def)
  have "\<forall>j\<ge>Suc k. x ! j = y ! j"
    using hi y1o by auto
  moreover have "\<forall>i<Suc k. x ! i = op_sub ar (y ! i) (op_mul ar (C ! (i + 1)) (x ! (i + 1)))"
  proof (intro allI impI)
    fix i assume "i < Suc k"
    show "x ! i = op_sub ar (y ! i) (op_mul ar (C ! (i + 1)) (x ! (i + 1)))"
    proof (cases "i = k")
      case True
      have "x ! k = y1 ! k" using hi by simp
      moreover have "x ! (k + 1) = y ! (k + 1)" using hi y1o [of "k + 1"] by simp
      ultimately show ?thesis using y1k True by simp
    next
      case False
      with \<open>i < Suc k\<close> have "i < k" by simp
      with lo y1o [of i] show ?thesis by simp
    qed
  qed
  ultimately show ?case
    unfolding f_def [symmetric] unf using len ly1 by simp
qed

lemma tri_backward_recurrence:
  assumes "length y = n" "0 < n"
  shows "length (tri_backward ar n C y) = n"
    and "tri_backward ar n C y ! (n - 1) = y ! (n - 1)"
    and "i + 1 < n \<Longrightarrow> tri_backward ar n C y ! i
           = op_sub ar (y ! i) (op_mul ar (C ! (i + 1)) (tri_backward ar n C y ! (i + 1)))"
proof -
  from assms have "n - 1 < length y" by simp
  from tri_backward_fold [OF this, of ar C] assms
  show "length (tri_backward ar n C y) = n"
    and "tri_backward ar n C y ! (n - 1) = y ! (n - 1)"
    and "i + 1 < n \<Longrightarrow> tri_backward ar n C y ! i
           = op_sub ar (y ! i) (op_mul ar (C ! (i + 1)) (tri_backward ar n C y ! (i + 1)))"
    by (simp_all add: tri_backward_def)
qed

text \<open>
  The algebra of the Thomas algorithm, in exact arithmetic: sweep values and the backward
  recurrence solve the system.
\<close>

lemma tri_sweep_backward_solves:
  assumes n: "0 < n"
    and piv: "\<forall>j<n. tri_pivot exact a b c j \<noteq> 0"
    and last: "x ! (n - 1) = tri_sweep exact a b c r (n - 1)"
    and rec: "\<forall>i. i + 1 < n \<longrightarrow>
                x ! i = tri_sweep exact a b c r i - (c ! i / tri_pivot exact a b c i) * x ! (i + 1)"
  shows "tri_solves n a b c r x"
  unfolding tri_solves_def
proof (intro allI impI)
  fix i assume i: "i < n"
  let ?P = "tri_pivot exact a b c" and ?Y = "tri_sweep exact a b c r"
  have Pi: "?P i \<noteq> 0" using piv i by simp
  have xi: "?P i * x ! i = ?P i * ?Y i - (if i + 1 = n then 0 else c ! i * x ! (i + 1))"
  proof (cases "i + 1 = n")
    case True
    then have "i = n - 1" by simp
    with last True show ?thesis by simp
  next
    case False
    with i have "i + 1 < n" by simp
    with rec have "x ! i = ?Y i - (c ! i / ?P i) * x ! (i + 1)" by simp
    then have "?P i * x ! i = ?P i * (?Y i - (c ! i / ?P i) * x ! (i + 1))"
      by simp
    also have "\<dots> = ?P i * ?Y i - ?P i * ((c ! i / ?P i) * x ! (i + 1))"
      by (rule right_diff_distrib)
    also have "?P i * ((c ! i / ?P i) * x ! (i + 1)) = c ! i * x ! (i + 1)"
      using Pi by simp
    finally show ?thesis using False by simp
  qed
  show "(if i = 0 then 0 else a ! i * x ! (i - 1)) + b ! i * x ! i
          + (if i + 1 = n then 0 else c ! i * x ! (i + 1)) = r ! i"
  proof (cases i)
    case 0
    have "?P 0 * ?Y 0 = r ! 0" using Pi 0 by simp
    with xi 0 show ?thesis by simp
  next
    case (Suc k)
    have Pk: "?P k \<noteq> 0" using piv i Suc by simp
    have xk: "x ! k = ?Y k - (c ! k / ?P k) * x ! Suc k"
      using rec i Suc by simp
    have PY: "?P (Suc k) * ?Y (Suc k) = r ! Suc k - a ! Suc k * ?Y k"
      using Pi Suc by simp
    have "a ! Suc k * x ! k + b ! Suc k * x ! Suc k
            = a ! Suc k * ?Y k + ?P (Suc k) * x ! Suc k"
      by (simp add: xk algebra_simps)
    also have "\<dots> = a ! Suc k * ?Y k + (?P (Suc k) * ?Y (Suc k)
                 - (if Suc k + 1 = n then 0 else c ! Suc k * x ! (Suc k + 1)))"
      using xi Suc by simp
    also have "\<dots> = r ! Suc k - (if Suc k + 1 = n then 0 else c ! Suc k * x ! (Suc k + 1))"
      unfolding PY by simp
    finally show ?thesis using Suc by simp
  qed
qed

lemma MP_tridiagonal_bands:
  assumes "0 < m_rows A" "3 * m_rows A \<le> length (m_matrix A)" "B \<noteq> []"
    and "band 1 A ! 0 \<noteq> 0"
  shows "MP_tridiagonal ar A B =
     (case tri_forward ar (m_rows A) (band 0 A) (band 1 A) (band 2 A) 1 (replicate (m_rows A) 0)
             (band 1 A ! 0) (B[0 := op_div ar (B ! 0) (band 1 A ! 0)]) of
        Inl e \<Rightarrow> Inl e
      | Inr (Zero_Pivot, C, r') \<Rightarrow> Inr (Zero_Pivot, r')
      | Inr (Triv_Soln, C, r') \<Rightarrow> Inr (Triv_Soln, r')
      | Inr (Tri_Done, C, r') \<Rightarrow> Inr (Tri_Done, tri_backward ar (m_rows A) C r'))"
  using assms by (simp add: MP_tridiagonal_def band_def Let_def)

lemma MP_tridiagonal_triv:
  assumes "0 < m_rows A" "3 * m_rows A \<le> length (m_matrix A)" "band 1 A ! 0 = 0"
  shows "MP_tridiagonal ar A B = Inr (Triv_Soln, B)"
  using assms by (simp add: MP_tridiagonal_def band_def Let_def)

text \<open>
  What a run on an \<open>N\<close>-by-3 band matrix and a right-hand side of length \<open>N\<close> returns, in
  any arithmetic: the report is a failure exactly when a pivot that the sweep computes is
  zero; at the first zero pivot the entries before it hold the swept values and the
  entries from it on are those of the input; without a zero pivot the result satisfies
  the backward recurrence over the swept values.
\<close>

lemma MP_tridiagonal_run:
  assumes "wf_matrix A" "m_cols A = 3" "m_rows A = n" "0 < n" "length B = n"
  shows "\<exists>rep x. MP_tridiagonal ar A B = Inr (rep, x) \<and> length x = n \<and>
           (rep \<noteq> Tri_Done \<longleftrightarrow> (\<exists>i<n. tri_pivot ar (band 0 A) (band 1 A) (band 2 A) i = 0)) \<and>
           (\<forall>k<n. tri_pivot ar (band 0 A) (band 1 A) (band 2 A) k = 0 \<and>
                  (\<forall>j<k. tri_pivot ar (band 0 A) (band 1 A) (band 2 A) j \<noteq> 0) \<longrightarrow>
                  (\<forall>j<k. x ! j = tri_sweep ar (band 0 A) (band 1 A) (band 2 A) B j) \<and>
                  (\<forall>j. k \<le> j \<and> j < n \<longrightarrow> x ! j = B ! j)) \<and>
           (rep = Tri_Done \<longrightarrow>
              x ! (n - 1) = tri_sweep ar (band 0 A) (band 1 A) (band 2 A) B (n - 1) \<and>
              (\<forall>i. i + 1 < n \<longrightarrow>
                 x ! i = op_sub ar (tri_sweep ar (band 0 A) (band 1 A) (band 2 A) B i)
                           (op_mul ar (op_div ar (band 2 A ! i)
                                         (tri_pivot ar (band 0 A) (band 1 A) (band 2 A) i))
                              (x ! (i + 1)))))"
proof -
  let ?a = "band 0 A" and ?b = "band 1 A" and ?c = "band 2 A"
  let ?P = "tri_pivot ar ?a ?b ?c"
  let ?S = "tri_sweep ar ?a ?b ?c B"
  from assms have len: "3 * m_rows A \<le> length (m_matrix A)" and rows: "0 < m_rows A"
    by (simp_all add: wf_matrix_def)
  show ?thesis
  proof (cases "?b ! 0 = 0")
    case True
    from MP_tridiagonal_triv [OF rows len True]
    have run: "MP_tridiagonal ar A B = Inr (Triv_Soln, B)" .
    have ex: "\<exists>i<n. ?P i = 0"
      using True \<open>0 < n\<close> by (intro exI [of _ 0]) simp
    have first: "k = 0" if "\<forall>j<k. ?P j \<noteq> 0" for k
      using that True by (cases k) auto
    show ?thesis
      unfolding run using assms(5) ex first by auto
  next
    case False
    from assms have Bne: "B \<noteq> []" by auto
    define rr where "rr = B[0 := op_div ar (B ! 0) (?b ! 0)]"
    have "\<exists>rep C' r'. tri_forward ar n ?a ?b ?c 1 (replicate n 0) (?b ! 0) rr = Inr (rep, C', r') \<and>
           length r' = n \<and> rep \<noteq> Triv_Soln \<and>
           (rep = Tri_Done \<longleftrightarrow> (\<forall>j<n. ?P j \<noteq> 0)) \<and>
           (rep = Tri_Done \<longrightarrow> length C' = n \<and> (\<forall>j<n. r' ! j = ?S j) \<and>
              (\<forall>j. 1 \<le> j \<and> j < n \<longrightarrow> C' ! j = op_div ar (?c ! (j - 1)) (?P (j - 1)))) \<and>
           (\<forall>k<n. ?P k = 0 \<longrightarrow> (\<forall>j. k \<le> j \<and> j < n \<longrightarrow> r' ! j = B ! j)) \<and>
           (\<forall>k<n. ?P k = 0 \<and> (\<forall>j<k. ?P j \<noteq> 0) \<longrightarrow> (\<forall>j<k. r' ! j = ?S j))"
    proof (rule tri_forward_sweep)
      show "1 \<le> (1::nat)" by simp
      show "1 \<le> n" using \<open>0 < n\<close> by simp
      show "length rr = n" using assms(5) by (simp add: rr_def)
      show "length (replicate n (0::real)) = n" by simp
      show "?b ! 0 = ?P (1 - 1)" by simp
      show "\<forall>j<1. ?P j \<noteq> 0" using False by simp
      show "\<forall>j<1. rr ! j = ?S j"
        using assms(4,5) by (simp add: rr_def)
      show "\<forall>j. 1 \<le> j \<and> j < n \<longrightarrow> rr ! j = B ! j" by (simp add: rr_def)
      show "\<forall>j. 1 \<le> j \<and> j < 1 \<longrightarrow> replicate n 0 ! j = op_div ar (?c ! (j - 1)) (?P (j - 1))"
        by simp
    qed
    then obtain rep C' r' where
      fw: "tri_forward ar n ?a ?b ?c 1 (replicate n 0) (?b ! 0) rr = Inr (rep, C', r')" and
      lr: "length r' = n" and nt: "rep \<noteq> Triv_Soln" and
      done_iff: "rep = Tri_Done \<longleftrightarrow> (\<forall>j<n. ?P j \<noteq> 0)" and
      done_vals: "rep = Tri_Done \<longrightarrow> length C' = n \<and> (\<forall>j<n. r' ! j = ?S j) \<and>
              (\<forall>j. 1 \<le> j \<and> j < n \<longrightarrow> C' ! j = op_div ar (?c ! (j - 1)) (?P (j - 1)))" and
      frame: "\<forall>k<n. ?P k = 0 \<longrightarrow> (\<forall>j. k \<le> j \<and> j < n \<longrightarrow> r' ! j = B ! j)" and
      swept: "\<forall>k<n. ?P k = 0 \<and> (\<forall>j<k. ?P j \<noteq> 0) \<longrightarrow> (\<forall>j<k. r' ! j = ?S j)"
      by blast
    note unf = MP_tridiagonal_bands [where ar = ar, OF rows len Bne False, unfolded assms(3),
      folded rr_def, unfolded fw]
    show ?thesis
    proof (cases rep)
      case Triv_Soln
      with nt show ?thesis by simp
    next
      case Zero_Pivot
      with unf have run: "MP_tridiagonal ar A B = Inr (Zero_Pivot, r')" by simp
      from Zero_Pivot done_iff have "\<exists>i<n. ?P i = 0" by auto
      then show ?thesis
        unfolding run using lr frame swept by simp
    next
      case Tri_Done
      with unf have run: "MP_tridiagonal ar A B = Inr (Tri_Done, tri_backward ar n C' r')" by simp
      from Tri_Done done_iff have piv: "\<forall>j<n. ?P j \<noteq> 0" by simp
      from Tri_Done done_vals have sw: "\<forall>j<n. r' ! j = ?S j"
        and Cs: "\<forall>j. 1 \<le> j \<and> j < n \<longrightarrow> C' ! j = op_div ar (?c ! (j - 1)) (?P (j - 1))"
        by simp_all
      let ?x = "tri_backward ar n C' r'"
      note bw = tri_backward_recurrence [OF lr \<open>0 < n\<close>, where C = C' and ar = ar]
      have last: "?x ! (n - 1) = ?S (n - 1)"
        using bw(2) sw \<open>0 < n\<close> by simp
      have rec: "?x ! i = op_sub ar (?S i) (op_mul ar (op_div ar (?c ! i) (?P i)) (?x ! (i + 1)))"
        if "i + 1 < n" for i
      proof -
        from Cs that have "C' ! (i + 1) = op_div ar (?c ! i) (?P i)" by simp
        moreover from sw that have "r' ! i = ?S i" by simp
        ultimately show ?thesis using bw(3) [OF that] by simp
      qed
      show ?thesis
        unfolding run using bw(1) piv last rec by simp
    qed
  qed
qed
text \<open>
  Claim C3, as the code has it. On an \<open>N\<close>-by-3 band matrix and a right-hand side of
  length \<open>N\<close> the solver returns a report and the right-hand side. The report is a
  failure (one of the two messages) exactly when a pivot that the forward sweep computes
  in the arithmetic of \<open>double\<close> is zero; the test is equality with zero, with no
  threshold. At the first zero pivot, at index \<open>k\<close>, the right-hand side holds the swept
  values in the entries before \<open>k\<close> and the entries of the input from \<open>k\<close> on, so nothing
  is modified after the test. Without a zero pivot the report is completion and the
  right-hand side holds the result of the sweep and of the backward recurrence; this is a
  solution of the tridiagonal system when the arithmetic does not round.
\<close>

theorem MP_tridiagonal_zero_pivot:
  assumes "wf_matrix A" "m_cols A = 3" "m_rows A = n" "0 < n" "length B = n"
  shows "\<exists>rep x. MP_tridiagonal ar A B = Inr (rep, x) \<and> length x = n \<and>
           (rep \<noteq> Tri_Done \<longleftrightarrow> (\<exists>i<n. tri_pivot ar (band 0 A) (band 1 A) (band 2 A) i = 0)) \<and>
           (\<forall>k<n. tri_pivot ar (band 0 A) (band 1 A) (band 2 A) k = 0 \<and>
                  (\<forall>j<k. tri_pivot ar (band 0 A) (band 1 A) (band 2 A) j \<noteq> 0) \<longrightarrow>
                  (\<forall>j<k. x ! j = tri_sweep ar (band 0 A) (band 1 A) (band 2 A) B j) \<and>
                  (\<forall>j. k \<le> j \<and> j < n \<longrightarrow> x ! j = B ! j)) \<and>
           (rep = Tri_Done \<longrightarrow>
              x ! (n - 1) = tri_sweep ar (band 0 A) (band 1 A) (band 2 A) B (n - 1) \<and>
              (\<forall>i. i + 1 < n \<longrightarrow>
                 x ! i = op_sub ar (tri_sweep ar (band 0 A) (band 1 A) (band 2 A) B i)
                           (op_mul ar (op_div ar (band 2 A ! i)
                                         (tri_pivot ar (band 0 A) (band 1 A) (band 2 A) i))
                              (x ! (i + 1))))) \<and>
           (ar = exact \<and> rep = Tri_Done \<longrightarrow> tri_solves n (band 0 A) (band 1 A) (band 2 A) B x)"
proof -
  let ?a = "band 0 A" and ?b = "band 1 A" and ?c = "band 2 A"
  from MP_tridiagonal_run [OF assms, of ar] obtain rep x where
    run: "MP_tridiagonal ar A B = Inr (rep, x)" and lx: "length x = n"
    and fail: "rep \<noteq> Tri_Done \<longleftrightarrow> (\<exists>i<n. tri_pivot ar ?a ?b ?c i = 0)"
    and stop: "\<forall>k<n. tri_pivot ar ?a ?b ?c k = 0 \<and> (\<forall>j<k. tri_pivot ar ?a ?b ?c j \<noteq> 0) \<longrightarrow>
                  (\<forall>j<k. x ! j = tri_sweep ar ?a ?b ?c B j) \<and>
                  (\<forall>j. k \<le> j \<and> j < n \<longrightarrow> x ! j = B ! j)"
    and fin: "rep = Tri_Done \<longrightarrow>
              x ! (n - 1) = tri_sweep ar ?a ?b ?c B (n - 1) \<and>
              (\<forall>i. i + 1 < n \<longrightarrow>
                 x ! i = op_sub ar (tri_sweep ar ?a ?b ?c B i)
                           (op_mul ar (op_div ar (?c ! i) (tri_pivot ar ?a ?b ?c i)) (x ! (i + 1))))"
    by (elim exE conjE)
  have "tri_solves n ?a ?b ?c B x" if ar: "ar = exact" and rep: "rep = Tri_Done"
  proof (rule tri_sweep_backward_solves [OF \<open>0 < n\<close>])
    show "\<forall>j<n. tri_pivot exact ?a ?b ?c j \<noteq> 0"
      using fail rep unfolding ar by blast
    show "x ! (n - 1) = tri_sweep exact ?a ?b ?c B (n - 1)"
      using fin rep unfolding ar by blast
    show "\<forall>i. i + 1 < n \<longrightarrow>
            x ! i = tri_sweep exact ?a ?b ?c B i - (?c ! i / tri_pivot exact ?a ?b ?c i) * x ! (i + 1)"
      using fin rep unfolding ar exact_ops by blast
  qed
  with run lx fail stop fin show ?thesis by blast
qed

theorem MP_tridiagonal_zero_pivot_witness:
  "wf_matrix \<lparr>m_rows = 2, m_cols = 3, m_matrix = [0, 2, 1, 1, 1 / 2, 0]\<rparr> \<and>
   (\<exists>rep x. MP_tridiagonal exact \<lparr>m_rows = 2, m_cols = 3, m_matrix = [0, 2, 1, 1, 1 / 2, 0]\<rparr> [5, 7]
               = Inr (rep, x) \<and>
      length x = 2 \<and> rep \<noteq> Tri_Done \<and> x ! 0 = 5 / 2 \<and> x ! 1 = 7)"
proof -
  let ?A = "\<lparr>m_rows = 2, m_cols = 3, m_matrix = [0, 2, 1, 1, 1 / 2, 0]\<rparr>"
  have wf: "wf_matrix ?A" by (simp add: wf_matrix_def)
  have bands: "band 0 ?A = [0, 1]" "band 1 ?A = [2, 1 / 2]" "band 2 ?A = [1, 0]"
    by (simp_all add: band_def upt_rec numeral_2_eq_2)
  have p0: "tri_pivot exact (band 0 ?A) (band 1 ?A) (band 2 ?A) 0 = 2"
    and p1: "tri_pivot exact (band 0 ?A) (band 1 ?A) (band 2 ?A) 1 = 0"
    and s0: "tri_sweep exact (band 0 ?A) (band 1 ?A) (band 2 ?A) [5, 7] 0 = 5 / 2"
    unfolding bands by simp_all
  from MP_tridiagonal_zero_pivot [OF wf, of 2 "[5, 7]" exact] obtain rep x where
    run: "MP_tridiagonal exact ?A [5, 7] = Inr (rep, x)" and lx: "length x = 2"
    and fail: "rep \<noteq> Tri_Done \<longleftrightarrow> (\<exists>i<2. tri_pivot exact (band 0 ?A) (band 1 ?A) (band 2 ?A) i = 0)"
    and stop: "\<forall>k<2. tri_pivot exact (band 0 ?A) (band 1 ?A) (band 2 ?A) k = 0 \<and>
                  (\<forall>j<k. tri_pivot exact (band 0 ?A) (band 1 ?A) (band 2 ?A) j \<noteq> 0) \<longrightarrow>
                  (\<forall>j<k. x ! j = tri_sweep exact (band 0 ?A) (band 1 ?A) (band 2 ?A) [5, 7] j) \<and>
                  (\<forall>j. k \<le> j \<and> j < 2 \<longrightarrow> x ! j = [5, 7] ! j)"
    by auto
  have "rep \<noteq> Tri_Done"
    using fail p1 by (auto intro: exI [of _ 1])
  moreover from stop [rule_format, of 1] p0 p1 have
    "(\<forall>j<1. x ! j = tri_sweep exact (band 0 ?A) (band 1 ?A) (band 2 ?A) [5, 7] j) \<and>
     (\<forall>j. 1 \<le> j \<and> j < 2 \<longrightarrow> x ! j = [5, 7] ! j)"
    by simp
  then have "x ! 0 = 5 / 2" "x ! 1 = 7"
    using s0 by simp_all
  ultimately show ?thesis using wf run lx by simp
qed

text \<open>
  In binary64 the singular system \<open>49 x0 + x1 = 1\<close>, \<open>49 x0 + x1 = 2\<close> has the computed
  pivots 49 and \<open>2^-53\<close>: the quotient \<open>1 / 49\<close> rounds down and \<open>49 * (1 / 49)\<close> rounds to
  \<open>1 - 2^-53\<close>. No pivot is zero, so the solver completes, and what it leaves in the
  right-hand side does not satisfy the second equation (the system has no solution).
  Without rounding the second pivot is zero and the solver reports it.
\<close>

theorem MP_tridiagonal_rounded_pivot:
  "MP_tridiagonal binary64 \<lparr>m_rows = 2, m_cols = 3, m_matrix = [0, 49, 1, 49, 1, 0]\<rparr> [1, 2]
     = Inr (Tri_Done, [- 735281571815591 / 4, 9007199254740992]) \<and>
   tri_pivot binary64 (band 0 \<lparr>m_rows = 2, m_cols = 3, m_matrix = [0, 49, 1, 49, 1, 0]\<rparr>)
      (band 1 \<lparr>m_rows = 2, m_cols = 3, m_matrix = [0, 49, 1, 49, 1, 0]\<rparr>)
      (band 2 \<lparr>m_rows = 2, m_cols = 3, m_matrix = [0, 49, 1, 49, 1, 0]\<rparr>) 0 = 49 \<and>
   tri_pivot binary64 (band 0 \<lparr>m_rows = 2, m_cols = 3, m_matrix = [0, 49, 1, 49, 1, 0]\<rparr>)
      (band 1 \<lparr>m_rows = 2, m_cols = 3, m_matrix = [0, 49, 1, 49, 1, 0]\<rparr>)
      (band 2 \<lparr>m_rows = 2, m_cols = 3, m_matrix = [0, 49, 1, 49, 1, 0]\<rparr>) 1 = 1 / 9007199254740992 \<and>
   \<not> tri_solves 2 (band 0 \<lparr>m_rows = 2, m_cols = 3, m_matrix = [0, 49, 1, 49, 1, 0]\<rparr>)
      (band 1 \<lparr>m_rows = 2, m_cols = 3, m_matrix = [0, 49, 1, 49, 1, 0]\<rparr>)
      (band 2 \<lparr>m_rows = 2, m_cols = 3, m_matrix = [0, 49, 1, 49, 1, 0]\<rparr>) [1, 2]
      [- 735281571815591 / 4, 9007199254740992] \<and>
   MP_tridiagonal exact \<lparr>m_rows = 2, m_cols = 3, m_matrix = [0, 49, 1, 49, 1, 0]\<rparr> [1, 2]
     = Inr (Zero_Pivot, [1 / 49, 2])"
proof -
  let ?A = "\<lparr>m_rows = 2, m_cols = 3, m_matrix = [0, 49, 1, 49, 1, 0]\<rparr>"
  have bands: "band 0 ?A = [0, 49]" "band 1 ?A = [49, 1]" "band 2 ?A = [1, 0]"
    by (simp_all add: band_def upt_rec numeral_2_eq_2)
  have run: "MP_tridiagonal binary64 ?A [1, 2]
               = Inr (Tri_Done, [- 735281571815591 / 4, 9007199254740992])"
    by (simp add: MP_tridiagonal_def tri_forward.simps tri_backward_def upt_rec numeral_2_eq_2
          binary64_def round64_eval)
  have p0: "tri_pivot binary64 [0, 49] [49, 1] [1, 0] 0 = 49" by simp
  have p1: "tri_pivot binary64 [0, 49] [49, 1] [1, 0] 1 = 1 / 9007199254740992"
    by (simp add: binary64_def round64_eval)
  have ns: "\<not> tri_solves 2 [0, 49] [49, 1] [1, 0] [1, 2] [- 735281571815591 / 4, 9007199254740992]"
    unfolding tri_solves_def by (rule notI, drule spec [of _ 1]) simp
  have ex: "MP_tridiagonal exact ?A [1, 2] = Inr (Zero_Pivot, [1 / 49, 2])"
    by (simp add: MP_tridiagonal_def tri_forward.simps tri_backward_def upt_rec numeral_2_eq_2)
  show ?thesis
    unfolding bands using run p0 p1 ns ex by blast
qed

section \<open>Matrix elements\<close>

lemma set_elem_dims [simp]:
  "m_rows (set_elem M i j v) = m_rows M" "m_cols (set_elem M i j v) = m_cols M"
  by (simp_all add: set_elem_def)

lemma wf_set_elem [simp]: "wf_matrix (set_elem M i j v) = wf_matrix M"
  by (simp add: wf_matrix_def set_elem_def)

lemma elem_set_elem:
  assumes "wf_matrix M" "i < m_rows M" "j < m_cols M" "j' < m_cols M"
  shows "elem (set_elem M i j v) i' j' = (if i' = i \<and> j' = j then v else elem M i' j')"
proof -
  have "i * m_cols M + j < length (m_matrix M)"
    using assms index_row_major_less [of i "m_rows M" j "m_cols M"] by (simp add: wf_matrix_def)
  then show ?thesis
    using index_row_major_inj [OF assms(3,4), of i i']
    by (auto simp: elem_def set_elem_def)
qed

lemma elem_transpose_matrix:
  assumes "i < m_cols M" "j < m_rows M"
  shows "elem (transpose_matrix M) i j = elem M j i"
proof -
  have "i * m_rows M + j < m_cols M * m_rows M"
    using index_row_major_less [OF assms] .
  then show ?thesis using assms by (simp add: elem_def transpose_matrix_def)
qed

section \<open>Selection of the branch in \<open>MP_matrixToQuaternion\<close>\<close>

lemma first_largest_four:
  "first_largest [(a, ra), (b, rb), (c, rc), (d, rd)] =
     (if ra \<ge> rb \<and> ra \<ge> rc \<and> ra \<ge> rd then a
      else if rb \<ge> rc \<and> rb \<ge> rd then b
      else if rc \<ge> rd then c else d)"
proof -
  have M: "Max (snd ` set [(a, ra), (b, rb), (c, rc), (d, rd)]) = max ra (max rb (max rc rd))"
    by simp
  show ?thesis
    unfolding first_largest_def M
    by (auto simp: max_def)
qed

lemma largest_chain:
  fixes rr xx yy zz :: real
  shows "(if rr = (if zz > (if yy > (if xx > rr then xx else rr) then yy else (if xx > rr then xx else rr))
                   then zz
                   else (if yy > (if xx > rr then xx else rr) then yy else (if xx > rr then xx else rr)))
          then a
          else if xx = (if zz > (if yy > (if xx > rr then xx else rr) then yy else (if xx > rr then xx else rr))
                   then zz
                   else (if yy > (if xx > rr then xx else rr) then yy else (if xx > rr then xx else rr)))
          then b
          else if yy = (if zz > (if yy > (if xx > rr then xx else rr) then yy else (if xx > rr then xx else rr))
                   then zz
                   else (if yy > (if xx > rr then xx else rr) then yy else (if xx > rr then xx else rr)))
          then c else d)
       = (if rr \<ge> xx \<and> rr \<ge> yy \<and> rr \<ge> zz then a
          else if xx \<ge> yy \<and> xx \<ge> zz then b
          else if yy \<ge> zz then c else d)"
  by auto

lemma MP_matrixToQuaternion_cases:
  assumes "3 \<le> m_rows A" "3 \<le> m_cols A"
  shows "MP_matrixToQuaternion A =
     (if 1 + elem A 0 0 + elem A 1 1 + elem A 2 2 \<ge> 1 + elem A 0 0 - elem A 1 1 - elem A 2 2 \<and>
         1 + elem A 0 0 + elem A 1 1 + elem A 2 2 \<ge> 1 - elem A 0 0 + elem A 1 1 - elem A 2 2 \<and>
         1 + elem A 0 0 + elem A 1 1 + elem A 2 2 \<ge> 1 - elem A 0 0 - elem A 1 1 + elem A 2 2
      then Inr (quat_from_rr (transpose_matrix A) (1 + elem A 0 0 + elem A 1 1 + elem A 2 2))
      else if 1 + elem A 0 0 - elem A 1 1 - elem A 2 2 \<ge> 1 - elem A 0 0 + elem A 1 1 - elem A 2 2 \<and>
              1 + elem A 0 0 - elem A 1 1 - elem A 2 2 \<ge> 1 - elem A 0 0 - elem A 1 1 + elem A 2 2
      then Inr (quat_from_xx (transpose_matrix A) (1 + elem A 0 0 - elem A 1 1 - elem A 2 2))
      else if 1 - elem A 0 0 + elem A 1 1 - elem A 2 2 \<ge> 1 - elem A 0 0 - elem A 1 1 + elem A 2 2
      then Inr (quat_from_yy (transpose_matrix A) (1 - elem A 0 0 + elem A 1 1 - elem A 2 2))
      else Inr (quat_from_zz (transpose_matrix A) (1 - elem A 0 0 - elem A 1 1 + elem A 2 2)))"
proof -
  have d: "elem (transpose_matrix A) 0 0 = elem A 0 0"
    "elem (transpose_matrix A) 1 1 = elem A 1 1"
    "elem (transpose_matrix A) 2 2 = elem A 2 2"
    using assms by (simp_all add: elem_transpose_matrix)
  have dims: "(m_rows (transpose_matrix A) < 3 \<or> m_cols (transpose_matrix A) < 3) = False"
    using assms by (simp add: transpose_matrix_def)
  show ?thesis
    unfolding MP_matrixToQuaternion_def Let_def dims if_False largest_chain d
    by (rule refl)
qed

text \<open>
  Claim C5. On every matrix with at least 3 rows and columns (a 3-by-3 rotation matrix, or
  a 4-by-4 matrix whose upper left block is one), the conversion forms the four
  candidates from the diagonal \<open>d0, d1, d2\<close> of its argument and returns the derivation
  of the branch whose candidate is the first to attain the maximum in the order
  rr, xx, yy, zz.
\<close>

theorem MP_matrixToQuaternion_first_largest:
  assumes "3 \<le> m_rows A" "3 \<le> m_cols A"
  shows "MP_matrixToQuaternion A =
     (let d0 = elem A 0 0; d1 = elem A 1 1; d2 = elem A 2 2;
          rr = 1 + d0 + d1 + d2;
          xx = 1 + d0 - d1 - d2;
          yy = 1 - d0 + d1 - d2;
          zz = 1 - d0 - d1 + d2;
          cands = [(Basis_rr, rr), (Basis_xx, xx), (Basis_yy, yy), (Basis_zz, zz)];
          k = first_largest cands
      in Inr (derive_quaternion k (transpose_matrix A) (the (map_of cands k))))"
proof -
  have sel: "the (map_of [(Basis_rr, rr), (Basis_xx, xx), (Basis_yy, yy), (Basis_zz, zz)] k)
        = (case k of Basis_rr \<Rightarrow> rr | Basis_xx \<Rightarrow> xx | Basis_yy \<Rightarrow> yy | Basis_zz \<Rightarrow> zz)"
    for rr xx yy zz :: real and k
    by (cases k) simp_all
  show ?thesis
    unfolding MP_matrixToQuaternion_cases [OF assms] Let_def first_largest_four sel
    by simp
qed

theorem MP_matrixToQuaternion_first_largest_witness:
  "3 \<le> m_rows \<lparr>m_rows = 3, m_cols = 3, m_matrix = [1, 0, 0, 0, - 1, 0, 0, 0, - 1]\<rparr> \<and>
   MP_matrixToQuaternion \<lparr>m_rows = 3, m_cols = 3, m_matrix = [1, 0, 0, 0, - 1, 0, 0, 0, - 1]\<rparr>
     = Inr (Quat 1 0 0 0)"
proof -
  let ?A = "\<lparr>m_rows = 3, m_cols = 3, m_matrix = [1, 0, 0, 0, - 1, 0, 0, 0, - 1]\<rparr>"
  have a: "elem ?A i j = (if i = j then (if i = 0 then 1 else - 1) else 0)" if "i < 3" "j < 3" for i j
    using that by (auto simp: elem_def less_Suc_eq numeral_3_eq_3)
  have t: "elem (transpose_matrix ?A) i j = (if i = j then (if i = 0 then 1 else - 1) else 0)"
    if "i < 3" "j < 3" for i j
    using that a [of j i] by (auto simp: elem_transpose_matrix)
  have s: "sqrt 16 = 4" using real_sqrt_abs [of 4] by simp
  have "first_largest [(Basis_rr, 1 + 1 + - 1 + - 1), (Basis_xx, 1 + 1 - - 1 - - 1),
          (Basis_yy, 1 - 1 + - 1 - - 1), (Basis_zz, 1 - 1 - - 1 + - 1 :: real)] = Basis_xx"
    by (simp add: first_largest_four)
  with MP_matrixToQuaternion_first_largest [of ?A]
  show ?thesis
    by (simp add: quat_from_xx_def a t s Let_def)
qed

section \<open>The matrix of a quaternion\<close>

lemma Quaternion_norm_square:
  "Quaternion_norm q * Quaternion_norm q = q_x q * q_x q + q_y q * q_y q + q_z q * q_z q + q_w q * q_w q"
proof -
  have "0 \<le> q_x q * q_x q + q_y q * q_y q + q_z q * q_z q + q_w q * q_w q"
    by (intro add_nonneg_nonneg) simp_all
  then show ?thesis
    unfolding Quaternion_norm_def by simp
qed

lemma normalized_unit:
  assumes "0 < Quaternion_norm q"
  shows "(q_w q / Quaternion_norm q) * (q_w q / Quaternion_norm q)
       + (q_x q / Quaternion_norm q) * (q_x q / Quaternion_norm q)
       + (q_y q / Quaternion_norm q) * (q_y q / Quaternion_norm q)
       + (q_z q / Quaternion_norm q) * (q_z q / Quaternion_norm q) = 1"
proof -
  let ?n = "Quaternion_norm q"
  have "(q_w q / ?n) * (q_w q / ?n) + (q_x q / ?n) * (q_x q / ?n)
        + (q_y q / ?n) * (q_y q / ?n) + (q_z q / ?n) * (q_z q / ?n)
      = (q_x q * q_x q + q_y q * q_y q + q_z q * q_z q + q_w q * q_w q) / (?n * ?n)"
    by (simp add: add_divide_distrib)
  also have "\<dots> = 1"
    using assms by (simp add: Quaternion_norm_square [symmetric])
  finally show ?thesis .
qed

lemma set_elem_chain_3:
  assumes "wf_matrix R" "3 \<le> m_rows R" "3 \<le> m_cols R"
    and "i < 3" "j < 3"
  shows "elem (set_elem (set_elem (set_elem (set_elem (set_elem (set_elem (set_elem (set_elem
           (set_elem R 0 0 v00) 1 0 v10) 2 0 v20) 0 1 v01) 1 1 v11) 2 1 v21) 0 2 v02) 1 2 v12) 2 2 v22) i j
       = [[v00, v01, v02], [v10, v11, v12], [v20, v21, v22]] ! i ! j"
proof -
  from assms(2,3) have b: "0 < m_rows R" "1 < m_rows R" "2 < m_rows R"
    "0 < m_cols R" "1 < m_cols R" "2 < m_cols R" by simp_all
  from assms(4) have "i = 0 \<or> i = 1 \<or> i = 2" by auto
  moreover from assms(5) have "j = 0 \<or> j = 1 \<or> j = 2" by auto
  ultimately show ?thesis
    using assms(1) b by (auto simp: elem_set_elem)
qed

lemma set_elem_chain_4:
  assumes "wf_matrix M" "m_rows M = 4" "m_cols M = 4" "j < 4"
  shows "elem (set_elem (set_elem (set_elem (set_elem (set_elem (set_elem (set_elem
           M 0 3 a) 1 3 b) 2 3 c) 3 0 d) 3 1 e) 3 2 f) 3 3 g) i j
       = (if i = 3 \<and> j = 3 then g else if i = 3 \<and> j = 2 then f else if i = 3 \<and> j = 1 then e
          else if i = 3 \<and> j = 0 then d else if i = 2 \<and> j = 3 then c
          else if i = 1 \<and> j = 3 then b else if i = 0 \<and> j = 3 then a else elem M i j)"
  using assms by (simp add: elem_set_elem)

lemma MP_quaternionToMatrix_entries:
  assumes "0 < eps" "eps \<le> Quaternion_norm r" "wf_matrix R" "3 \<le> m_rows R" "3 \<le> m_cols R"
  shows "\<exists>R'. MP_quaternionToMatrix eps r R = Inr R' \<and>
           wf_matrix R' \<and> m_rows R' = m_rows R \<and> m_cols R' = m_cols R \<and>
           (let n = Quaternion_norm r;
                x = q_x r / n; y = q_y r / n; z = q_z r / n; w = q_w r / n
            in elem R' 0 0 = w * w + x * x - y * y - z * z \<and>
               elem R' 0 1 = 2 * x * y - 2 * w * z \<and>
               elem R' 0 2 = 2 * x * z + 2 * w * y \<and>
               elem R' 1 0 = 2 * x * y + 2 * w * z \<and>
               elem R' 1 1 = w * w - x * x + y * y - z * z \<and>
               elem R' 1 2 = 2 * y * z - 2 * w * x \<and>
               elem R' 2 0 = 2 * x * z - 2 * w * y \<and>
               elem R' 2 1 = 2 * y * z + 2 * w * x \<and>
               elem R' 2 2 = w * w - x * x - y * y + z * z) \<and>
           (m_rows R = 4 \<and> m_cols R = 4 \<longrightarrow>
              elem R' 0 3 = 0 \<and> elem R' 1 3 = 0 \<and> elem R' 2 3 = 0 \<and>
              elem R' 3 0 = 0 \<and> elem R' 3 1 = 0 \<and> elem R' 3 2 = 0 \<and> elem R' 3 3 = 1)"
proof -
  define n where "n = Quaternion_norm r"
  define x where "x = q_x r / n"
  define y where "y = q_y r / n"
  define z where "z = q_z r / n"
  define w where "w = q_w r / n"
  note x_y_z_w_def = x_def y_def z_def w_def
  define R9 where "R9 = set_elem (set_elem (set_elem (set_elem (set_elem (set_elem (set_elem (set_elem
           (set_elem R 0 0 (w * w + x * x - y * y - z * z)) 1 0 (2 * x * y + 2 * w * z))
           2 0 (2 * x * z - 2 * w * y)) 0 1 (2 * x * y - 2 * w * z)) 1 1 (w * w - x * x + y * y - z * z))
           2 1 (2 * y * z + 2 * w * x)) 0 2 (2 * x * z + 2 * w * y)) 1 2 (2 * y * z - 2 * w * x))
           2 2 (w * w - x * x - y * y + z * z)"
  define Rg where "Rg = set_elem (set_elem (set_elem (set_elem (set_elem (set_elem (set_elem
           R9 0 3 0) 1 3 0) 2 3 0) 3 0 0) 3 1 0) 3 2 0) 3 3 (w * w + x * x + y * y + z * z)"
  define R' where "R' = (if m_rows R > 3 \<and> m_cols R > 3 then Rg else R9)"
  from assms have npos: "0 < Quaternion_norm r" by simp
  have norm_ok: "Quaternion_normalize eps r = Inr (Quat x y z w)"
    using assms(2) by (simp add: Quaternion_normalize_def x_y_z_w_def n_def)
  have res: "MP_quaternionToMatrix eps r R = Inr R'"
    using assms(4,5)
    by (simp add: MP_quaternionToMatrix_def norm_ok Let_def R'_def Rg_def R9_def)
  have dims9: "m_rows R9 = m_rows R" "m_cols R9 = m_cols R" "wf_matrix R9"
    using assms(3) by (simp_all add: R9_def)
  have dims: "wf_matrix R'" "m_rows R' = m_rows R" "m_cols R' = m_cols R"
    using dims9 by (simp_all add: R'_def Rg_def)
  have block9: "elem R9 i j = [[w * w + x * x - y * y - z * z, 2 * x * y - 2 * w * z, 2 * x * z + 2 * w * y],
        [2 * x * y + 2 * w * z, w * w - x * x + y * y - z * z, 2 * y * z - 2 * w * x],
        [2 * x * z - 2 * w * y, 2 * y * z + 2 * w * x, w * w - x * x - y * y + z * z]] ! i ! j"
    if "i < 3" "j < 3" for i j
    unfolding R9_def by (rule set_elem_chain_3 [OF assms(3,4,5) that])
  have unit: "w * w + x * x + y * y + z * z = 1"
    using normalized_unit [OF npos] by (simp add: x_y_z_w_def n_def)
  have block: "elem R' i j = elem R9 i j" if "i < 3" "j < 3" for i j
  proof (cases "m_rows R > 3 \<and> m_cols R > 3")
    case False
    then have "R' = R9" by (auto simp: R'_def)
    then show ?thesis by simp
  next
    case True
    have "elem Rg i j = elem R9 i j"
      unfolding Rg_def
      using that True dims9 by (simp add: elem_set_elem)
    moreover from True have "R' = Rg" by (simp add: R'_def)
    ultimately show ?thesis by simp
  qed
  have last: "elem R' 0 3 = 0 \<and> elem R' 1 3 = 0 \<and> elem R' 2 3 = 0 \<and>
              elem R' 3 0 = 0 \<and> elem R' 3 1 = 0 \<and> elem R' 3 2 = 0 \<and> elem R' 3 3 = 1"
    if "m_rows R = 4" "m_cols R = 4"
  proof -
    from that dims9 have r9: "m_rows R9 = 4" "m_cols R9 = 4" by simp_all
    have Rg: "R' = Rg" using that by (simp add: R'_def)
    note ch = set_elem_chain_4 [OF dims9(3) r9, where a = 0 and b = 0 and c = 0 and d = 0
        and e = 0 and f = 0 and g = "w * w + x * x + y * y + z * z", folded Rg_def, unfolded unit]
    have "elem Rg 0 3 = 0" "elem Rg 1 3 = 0" "elem Rg 2 3 = 0" "elem Rg 3 0 = 0"
      "elem Rg 3 1 = 0" "elem Rg 3 2 = 0" "elem Rg 3 3 = 1"
      using ch [of 3 0] ch [of 3 1] ch [of 3 2] ch [of 0 3] ch [of 1 3] ch [of 2 3] ch [of 3 3]
      by simp_all
    then show ?thesis unfolding Rg by simp
  qed
  have blk: "elem R' 0 0 = w * w + x * x - y * y - z * z" "elem R' 0 1 = 2 * x * y - 2 * w * z"
    "elem R' 0 2 = 2 * x * z + 2 * w * y" "elem R' 1 0 = 2 * x * y + 2 * w * z"
    "elem R' 1 1 = w * w - x * x + y * y - z * z" "elem R' 1 2 = 2 * y * z - 2 * w * x"
    "elem R' 2 0 = 2 * x * z - 2 * w * y" "elem R' 2 1 = 2 * y * z + 2 * w * x"
    "elem R' 2 2 = w * w - x * x - y * y + z * z"
    by (simp_all add: block block9)
  show ?thesis
    unfolding Let_def n_def [symmetric] x_def [symmetric] y_def [symmetric] z_def [symmetric]
      w_def [symmetric]
    using res dims last blk by blast
qed

text \<open>
  Claim C6. For a quaternion whose norm is not below the threshold of \<open>normalize\<close>, and
  an output matrix with at least 3 rows and columns, the conversion returns normally; the
  3-by-3 block of the result is the closed form in the components of the normalised
  quaternion; and when the output matrix is 4-by-4 its last row and last column
  are (0, 0, 0, 1).
\<close>

theorem MP_quaternionToMatrix_closed_form:
  assumes "0 < eps" "eps \<le> Quaternion_norm r" "wf_matrix R" "3 \<le> m_rows R" "3 \<le> m_cols R"
  shows "\<exists>R'. MP_quaternionToMatrix eps r R = Inr R' \<and>
           m_rows R' = m_rows R \<and> m_cols R' = m_cols R \<and>
           (let n = Quaternion_norm r;
                x = q_x r / n; y = q_y r / n; z = q_z r / n; w = q_w r / n
            in elem R' 0 0 = w * w + x * x - y * y - z * z \<and>
               elem R' 0 1 = 2 * x * y - 2 * w * z \<and>
               elem R' 0 2 = 2 * x * z + 2 * w * y \<and>
               elem R' 1 0 = 2 * x * y + 2 * w * z \<and>
               elem R' 1 1 = w * w - x * x + y * y - z * z \<and>
               elem R' 1 2 = 2 * y * z - 2 * w * x \<and>
               elem R' 2 0 = 2 * x * z - 2 * w * y \<and>
               elem R' 2 1 = 2 * y * z + 2 * w * x \<and>
               elem R' 2 2 = w * w - x * x - y * y + z * z) \<and>
           (m_rows R = 4 \<and> m_cols R = 4 \<longrightarrow>
              elem R' 0 3 = 0 \<and> elem R' 1 3 = 0 \<and> elem R' 2 3 = 0 \<and>
              elem R' 3 0 = 0 \<and> elem R' 3 1 = 0 \<and> elem R' 3 2 = 0 \<and> elem R' 3 3 = 1)"
  using MP_quaternionToMatrix_entries [OF assms] by blast

theorem MP_quaternionToMatrix_closed_form_witness:
  "1 / 1000000 \<le> Quaternion_norm (Quat 0 0 0 2) \<and>
   wf_matrix \<lparr>m_rows = 4, m_cols = 4, m_matrix = replicate 16 5\<rparr> \<and>
   (\<exists>R'. MP_quaternionToMatrix (1 / 1000000) (Quat 0 0 0 2)
            \<lparr>m_rows = 4, m_cols = 4, m_matrix = replicate 16 5\<rparr> = Inr R' \<and>
         elem R' 0 0 = 1 \<and> elem R' 0 1 = 0 \<and> elem R' 0 3 = 0 \<and> elem R' 3 0 = 0 \<and> elem R' 3 3 = 1)"
proof -
  let ?R = "\<lparr>m_rows = 4, m_cols = 4, m_matrix = replicate 16 5\<rparr>"
  have n: "Quaternion_norm (Quat 0 0 0 2) = 2"
    using real_sqrt_abs [of 2] by (simp add: Quaternion_norm_def)
  have wf: "wf_matrix ?R" by (simp add: wf_matrix_def)
  have eps: "(0::real) < 1 / 1000000" by simp
  have le: "1 / 1000000 \<le> Quaternion_norm (Quat 0 0 0 2)" by (simp add: n)
  from MP_quaternionToMatrix_closed_form [OF eps le wf]
  show ?thesis using le wf by (auto simp: Let_def n)
qed

text \<open>
  Orthonormal rows and determinant 1: every entry of a rotation matrix is its own cofactor,
  and the columns are orthonormal as well.
\<close>

lemma rotation_cofactors:
  fixes a00 a01 a02 a10 a11 a12 a20 a21 a22 :: real
  assumes r00: "a00 * a00 + a01 * a01 + a02 * a02 = 1"
    and r11: "a10 * a10 + a11 * a11 + a12 * a12 = 1"
    and r22: "a20 * a20 + a21 * a21 + a22 * a22 = 1"
    and r01: "a00 * a10 + a01 * a11 + a02 * a12 = 0"
    and r02: "a00 * a20 + a01 * a21 + a02 * a22 = 0"
    and r12: "a10 * a20 + a11 * a21 + a12 * a22 = 0"
    and det: "a00 * (a11 * a22 - a12 * a21) - a01 * (a10 * a22 - a12 * a20) + a02 * (a10 * a21 - a11 * a20) = 1"
  shows "a11 * a22 - a12 * a21 = a00"
    and "a12 * a20 - a10 * a22 = a01"
    and "a10 * a21 - a11 * a20 = a02"
    and "a02 * a21 - a01 * a22 = a10"
    and "a00 * a22 - a02 * a20 = a11"
    and "a01 * a20 - a00 * a21 = a12"
    and "a01 * a12 - a02 * a11 = a20"
    and "a02 * a10 - a00 * a12 = a21"
    and "a00 * a11 - a01 * a10 = a22"
proof -
  have "(a00 * (a11 * a22 - a12 * a21) - a01 * (a10 * a22 - a12 * a20) + a02 * (a10 * a21 - a11 * a20)) * ((a11 * a22 - a12 * a21) - a00) = (a11 * a22 - a12 * a21) * ((a00 * (a11 * a22 - a12 * a21) - a01 * (a10 * a22 - a12 * a20) + a02 * (a10 * a21 - a11 * a20)) - (a00 * a00 + a01 * a01 + a02 * a02)) + (a02 * a21 - a01 * a22) * (0 - (a00 * a10 + a01 * a11 + a02 * a12)) + (a01 * a12 - a02 * a11) * (0 - (a00 * a20 + a01 * a21 + a02 * a22))"
    by algebra
  then show "a11 * a22 - a12 * a21 = a00"
    unfolding det r00 r11 r22 r01 r02 r12 by simp
  have "(a00 * (a11 * a22 - a12 * a21) - a01 * (a10 * a22 - a12 * a20) + a02 * (a10 * a21 - a11 * a20)) * ((a12 * a20 - a10 * a22) - a01) = (a12 * a20 - a10 * a22) * ((a00 * (a11 * a22 - a12 * a21) - a01 * (a10 * a22 - a12 * a20) + a02 * (a10 * a21 - a11 * a20)) - (a00 * a00 + a01 * a01 + a02 * a02)) + (a00 * a22 - a02 * a20) * (0 - (a00 * a10 + a01 * a11 + a02 * a12)) + (a02 * a10 - a00 * a12) * (0 - (a00 * a20 + a01 * a21 + a02 * a22))"
    by algebra
  then show "a12 * a20 - a10 * a22 = a01"
    unfolding det r00 r11 r22 r01 r02 r12 by simp
  have "(a00 * (a11 * a22 - a12 * a21) - a01 * (a10 * a22 - a12 * a20) + a02 * (a10 * a21 - a11 * a20)) * ((a10 * a21 - a11 * a20) - a02) = (a10 * a21 - a11 * a20) * ((a00 * (a11 * a22 - a12 * a21) - a01 * (a10 * a22 - a12 * a20) + a02 * (a10 * a21 - a11 * a20)) - (a00 * a00 + a01 * a01 + a02 * a02)) + (a01 * a20 - a00 * a21) * (0 - (a00 * a10 + a01 * a11 + a02 * a12)) + (a00 * a11 - a01 * a10) * (0 - (a00 * a20 + a01 * a21 + a02 * a22))"
    by algebra
  then show "a10 * a21 - a11 * a20 = a02"
    unfolding det r00 r11 r22 r01 r02 r12 by simp
  have "(a00 * (a11 * a22 - a12 * a21) - a01 * (a10 * a22 - a12 * a20) + a02 * (a10 * a21 - a11 * a20)) * ((a02 * a21 - a01 * a22) - a10) = (a11 * a22 - a12 * a21) * (0 - (a00 * a10 + a01 * a11 + a02 * a12)) + (a02 * a21 - a01 * a22) * ((a00 * (a11 * a22 - a12 * a21) - a01 * (a10 * a22 - a12 * a20) + a02 * (a10 * a21 - a11 * a20)) - (a10 * a10 + a11 * a11 + a12 * a12)) + (a01 * a12 - a02 * a11) * (0 - (a10 * a20 + a11 * a21 + a12 * a22))"
    by algebra
  then show "a02 * a21 - a01 * a22 = a10"
    unfolding det r00 r11 r22 r01 r02 r12 by simp
  have "(a00 * (a11 * a22 - a12 * a21) - a01 * (a10 * a22 - a12 * a20) + a02 * (a10 * a21 - a11 * a20)) * ((a00 * a22 - a02 * a20) - a11) = (a12 * a20 - a10 * a22) * (0 - (a00 * a10 + a01 * a11 + a02 * a12)) + (a00 * a22 - a02 * a20) * ((a00 * (a11 * a22 - a12 * a21) - a01 * (a10 * a22 - a12 * a20) + a02 * (a10 * a21 - a11 * a20)) - (a10 * a10 + a11 * a11 + a12 * a12)) + (a02 * a10 - a00 * a12) * (0 - (a10 * a20 + a11 * a21 + a12 * a22))"
    by algebra
  then show "a00 * a22 - a02 * a20 = a11"
    unfolding det r00 r11 r22 r01 r02 r12 by simp
  have "(a00 * (a11 * a22 - a12 * a21) - a01 * (a10 * a22 - a12 * a20) + a02 * (a10 * a21 - a11 * a20)) * ((a01 * a20 - a00 * a21) - a12) = (a10 * a21 - a11 * a20) * (0 - (a00 * a10 + a01 * a11 + a02 * a12)) + (a01 * a20 - a00 * a21) * ((a00 * (a11 * a22 - a12 * a21) - a01 * (a10 * a22 - a12 * a20) + a02 * (a10 * a21 - a11 * a20)) - (a10 * a10 + a11 * a11 + a12 * a12)) + (a00 * a11 - a01 * a10) * (0 - (a10 * a20 + a11 * a21 + a12 * a22))"
    by algebra
  then show "a01 * a20 - a00 * a21 = a12"
    unfolding det r00 r11 r22 r01 r02 r12 by simp
  have "(a00 * (a11 * a22 - a12 * a21) - a01 * (a10 * a22 - a12 * a20) + a02 * (a10 * a21 - a11 * a20)) * ((a01 * a12 - a02 * a11) - a20) = (a11 * a22 - a12 * a21) * (0 - (a00 * a20 + a01 * a21 + a02 * a22)) + (a02 * a21 - a01 * a22) * (0 - (a10 * a20 + a11 * a21 + a12 * a22)) + (a01 * a12 - a02 * a11) * ((a00 * (a11 * a22 - a12 * a21) - a01 * (a10 * a22 - a12 * a20) + a02 * (a10 * a21 - a11 * a20)) - (a20 * a20 + a21 * a21 + a22 * a22))"
    by algebra
  then show "a01 * a12 - a02 * a11 = a20"
    unfolding det r00 r11 r22 r01 r02 r12 by simp
  have "(a00 * (a11 * a22 - a12 * a21) - a01 * (a10 * a22 - a12 * a20) + a02 * (a10 * a21 - a11 * a20)) * ((a02 * a10 - a00 * a12) - a21) = (a12 * a20 - a10 * a22) * (0 - (a00 * a20 + a01 * a21 + a02 * a22)) + (a00 * a22 - a02 * a20) * (0 - (a10 * a20 + a11 * a21 + a12 * a22)) + (a02 * a10 - a00 * a12) * ((a00 * (a11 * a22 - a12 * a21) - a01 * (a10 * a22 - a12 * a20) + a02 * (a10 * a21 - a11 * a20)) - (a20 * a20 + a21 * a21 + a22 * a22))"
    by algebra
  then show "a02 * a10 - a00 * a12 = a21"
    unfolding det r00 r11 r22 r01 r02 r12 by simp
  have "(a00 * (a11 * a22 - a12 * a21) - a01 * (a10 * a22 - a12 * a20) + a02 * (a10 * a21 - a11 * a20)) * ((a00 * a11 - a01 * a10) - a22) = (a10 * a21 - a11 * a20) * (0 - (a00 * a20 + a01 * a21 + a02 * a22)) + (a01 * a20 - a00 * a21) * (0 - (a10 * a20 + a11 * a21 + a12 * a22)) + (a00 * a11 - a01 * a10) * ((a00 * (a11 * a22 - a12 * a21) - a01 * (a10 * a22 - a12 * a20) + a02 * (a10 * a21 - a11 * a20)) - (a20 * a20 + a21 * a21 + a22 * a22))"
    by algebra
  then show "a00 * a11 - a01 * a10 = a22"
    unfolding det r00 r11 r22 r01 r02 r12 by simp
qed

lemma rotation_columns:
  fixes a00 a01 a02 a10 a11 a12 a20 a21 a22 :: real
  assumes r00: "a00 * a00 + a01 * a01 + a02 * a02 = 1"
    and r11: "a10 * a10 + a11 * a11 + a12 * a12 = 1"
    and r22: "a20 * a20 + a21 * a21 + a22 * a22 = 1"
    and r01: "a00 * a10 + a01 * a11 + a02 * a12 = 0"
    and r02: "a00 * a20 + a01 * a21 + a02 * a22 = 0"
    and r12: "a10 * a20 + a11 * a21 + a12 * a22 = 0"
    and det: "a00 * (a11 * a22 - a12 * a21) - a01 * (a10 * a22 - a12 * a20) + a02 * (a10 * a21 - a11 * a20) = 1"
  shows "a00 * a00 + a10 * a10 + a20 * a20 = 1"
    and "a01 * a01 + a11 * a11 + a21 * a21 = 1"
    and "a02 * a02 + a12 * a12 + a22 * a22 = 1"
    and "a00 * a01 + a10 * a11 + a20 * a21 = 0"
    and "a00 * a02 + a10 * a12 + a20 * a22 = 0"
    and "a01 * a02 + a11 * a12 + a21 * a22 = 0"
proof -
  note k = rotation_cofactors [OF r00 r11 r22 r01 r02 r12 det]
  have "(a00 * a00 + a10 * a10 + a20 * a20) - 1 = (a00 - (a11 * a22 - a12 * a21)) * a00 + (a10 - (a02 * a21 - a01 * a22)) * a10 + (a20 - (a01 * a12 - a02 * a11)) * a20 + 1 * ((a00 * (a11 * a22 - a12 * a21) - a01 * (a10 * a22 - a12 * a20) + a02 * (a10 * a21 - a11 * a20)) - 1)"
    by algebra
  then show "a00 * a00 + a10 * a10 + a20 * a20 = 1"
    unfolding det unfolding k by simp
  have "(a01 * a01 + a11 * a11 + a21 * a21) - 1 = (a01 - (a12 * a20 - a10 * a22)) * a01 + (a11 - (a00 * a22 - a02 * a20)) * a11 + (a21 - (a02 * a10 - a00 * a12)) * a21 + 1 * ((a00 * (a11 * a22 - a12 * a21) - a01 * (a10 * a22 - a12 * a20) + a02 * (a10 * a21 - a11 * a20)) - 1)"
    by algebra
  then show "a01 * a01 + a11 * a11 + a21 * a21 = 1"
    unfolding det unfolding k by simp
  have "(a02 * a02 + a12 * a12 + a22 * a22) - 1 = (a02 - (a10 * a21 - a11 * a20)) * a02 + (a12 - (a01 * a20 - a00 * a21)) * a12 + (a22 - (a00 * a11 - a01 * a10)) * a22 + 1 * ((a00 * (a11 * a22 - a12 * a21) - a01 * (a10 * a22 - a12 * a20) + a02 * (a10 * a21 - a11 * a20)) - 1)"
    by algebra
  then show "a02 * a02 + a12 * a12 + a22 * a22 = 1"
    unfolding det unfolding k by simp
  have "(a00 * a01 + a10 * a11 + a20 * a21) - 0 = (a00 - (a11 * a22 - a12 * a21)) * a01 + (a10 - (a02 * a21 - a01 * a22)) * a11 + (a20 - (a01 * a12 - a02 * a11)) * a21 + 0 * ((a00 * (a11 * a22 - a12 * a21) - a01 * (a10 * a22 - a12 * a20) + a02 * (a10 * a21 - a11 * a20)) - 1)"
    by algebra
  then show "a00 * a01 + a10 * a11 + a20 * a21 = 0"
    unfolding det unfolding k by simp
  have "(a00 * a02 + a10 * a12 + a20 * a22) - 0 = (a00 - (a11 * a22 - a12 * a21)) * a02 + (a10 - (a02 * a21 - a01 * a22)) * a12 + (a20 - (a01 * a12 - a02 * a11)) * a22 + 0 * ((a00 * (a11 * a22 - a12 * a21) - a01 * (a10 * a22 - a12 * a20) + a02 * (a10 * a21 - a11 * a20)) - 1)"
    by algebra
  then show "a00 * a02 + a10 * a12 + a20 * a22 = 0"
    unfolding det unfolding k by simp
  have "(a01 * a02 + a11 * a12 + a21 * a22) - 0 = (a01 - (a12 * a20 - a10 * a22)) * a02 + (a11 - (a00 * a22 - a02 * a20)) * a12 + (a21 - (a02 * a10 - a00 * a12)) * a22 + 0 * ((a00 * (a11 * a22 - a12 * a21) - a01 * (a10 * a22 - a12 * a20) + a02 * (a10 * a21 - a11 * a20)) - 1)"
    by algebra
  then show "a01 * a02 + a11 * a12 + a21 * a22 = 0"
    unfolding det unfolding k by simp
qed

text \<open>
  The entries of a rotation matrix, combined as the conversion to a quaternion combines
  them, multiply like the pairwise products of the components of a quaternion.
\<close>

lemma rotation_products:
  fixes a00 a01 a02 a10 a11 a12 a20 a21 a22 :: real
  assumes r00: "a00 * a00 + a01 * a01 + a02 * a02 = 1"
    and r11: "a10 * a10 + a11 * a11 + a12 * a12 = 1"
    and r22: "a20 * a20 + a21 * a21 + a22 * a22 = 1"
    and r01: "a00 * a10 + a01 * a11 + a02 * a12 = 0"
    and r02: "a00 * a20 + a01 * a21 + a02 * a22 = 0"
    and r12: "a10 * a20 + a11 * a21 + a12 * a22 = 0"
    and det: "a00 * (a11 * a22 - a12 * a21) - a01 * (a10 * a22 - a12 * a20) + a02 * (a10 * a21 - a11 * a20) = 1"
  shows "(a21 - a12) * (a21 - a12) = (1 + a00 + a11 + a22) * (1 + a00 - a11 - a22)"
    and "(a02 - a20) * (a02 - a20) = (1 + a00 + a11 + a22) * (1 - a00 + a11 - a22)"
    and "(a10 - a01) * (a10 - a01) = (1 + a00 + a11 + a22) * (1 - a00 - a11 + a22)"
    and "(a01 + a10) * (a01 + a10) = (1 + a00 - a11 - a22) * (1 - a00 + a11 - a22)"
    and "(a02 + a20) * (a02 + a20) = (1 + a00 - a11 - a22) * (1 - a00 - a11 + a22)"
    and "(a12 + a21) * (a12 + a21) = (1 - a00 + a11 - a22) * (1 - a00 - a11 + a22)"
    and "(a21 - a12) * (a02 - a20) = (1 + a00 + a11 + a22) * (a01 + a10)"
    and "(a21 - a12) * (a10 - a01) = (1 + a00 + a11 + a22) * (a02 + a20)"
    and "(a02 - a20) * (a10 - a01) = (1 + a00 + a11 + a22) * (a12 + a21)"
    and "(a01 + a10) * (a02 + a20) = (1 + a00 - a11 - a22) * (a12 + a21)"
    and "(a21 - a12) * (a01 + a10) = (1 + a00 - a11 - a22) * (a02 - a20)"
    and "(a21 - a12) * (a02 + a20) = (1 + a00 - a11 - a22) * (a10 - a01)"
    and "(a01 + a10) * (a12 + a21) = (1 - a00 + a11 - a22) * (a02 + a20)"
    and "(a02 - a20) * (a01 + a10) = (1 - a00 + a11 - a22) * (a21 - a12)"
    and "(a02 - a20) * (a12 + a21) = (1 - a00 + a11 - a22) * (a10 - a01)"
    and "(a02 + a20) * (a12 + a21) = (1 - a00 - a11 + a22) * (a01 + a10)"
    and "(a10 - a01) * (a02 + a20) = (1 - a00 - a11 + a22) * (a21 - a12)"
    and "(a10 - a01) * (a12 + a21) = (1 - a00 - a11 + a22) * (a02 - a20)"
proof -
  note k = rotation_cofactors [OF r00 r11 r22 r01 r02 r12 det]
  note c = rotation_columns [OF r00 r11 r22 r01 r02 r12 det]
  have "(a21 - a12) * (a21 - a12) - (1 + a00 + a11 + a22) * (1 + a00 - a11 - a22) = (-1) * ((a00 * a00 + a10 * a10 + a20 * a20) - 1) + (1) * ((a10 * a10 + a11 * a11 + a12 * a12) - 1) + (1) * ((a20 * a20 + a21 * a21 + a22 * a22) - 1) + (2) * ((a11 * a22 - a12 * a21) - a00)"
    by algebra
  then show "(a21 - a12) * (a21 - a12) = (1 + a00 + a11 + a22) * (1 + a00 - a11 - a22)"
    unfolding k c r00 r11 r22 r01 r02 r12 by simp
  have "(a02 - a20) * (a02 - a20) - (1 + a00 + a11 + a22) * (1 - a00 + a11 - a22) = (1) * ((a00 * a00 + a01 * a01 + a02 * a02) - 1) + (-1) * ((a01 * a01 + a11 * a11 + a21 * a21) - 1) + (1) * ((a20 * a20 + a21 * a21 + a22 * a22) - 1) + (2) * ((a00 * a22 - a02 * a20) - a11)"
    by algebra
  then show "(a02 - a20) * (a02 - a20) = (1 + a00 + a11 + a22) * (1 - a00 + a11 - a22)"
    unfolding k c r00 r11 r22 r01 r02 r12 by simp
  have "(a10 - a01) * (a10 - a01) - (1 + a00 + a11 + a22) * (1 - a00 - a11 + a22) = (1) * ((a00 * a00 + a10 * a10 + a20 * a20) - 1) + (1) * ((a01 * a01 + a11 * a11 + a21 * a21) - 1) + (-1) * ((a20 * a20 + a21 * a21 + a22 * a22) - 1) + (2) * ((a00 * a11 - a01 * a10) - a22)"
    by algebra
  then show "(a10 - a01) * (a10 - a01) = (1 + a00 + a11 + a22) * (1 - a00 - a11 + a22)"
    unfolding k c r00 r11 r22 r01 r02 r12 by simp
  have "(a01 + a10) * (a01 + a10) - (1 + a00 - a11 - a22) * (1 - a00 + a11 - a22) = (1) * ((a00 * a00 + a10 * a10 + a20 * a20) - 1) + (1) * ((a01 * a01 + a11 * a11 + a21 * a21) - 1) + (-1) * ((a20 * a20 + a21 * a21 + a22 * a22) - 1) + (-2) * ((a00 * a11 - a01 * a10) - a22)"
    by algebra
  then show "(a01 + a10) * (a01 + a10) = (1 + a00 - a11 - a22) * (1 - a00 + a11 - a22)"
    unfolding k c r00 r11 r22 r01 r02 r12 by simp
  have "(a02 + a20) * (a02 + a20) - (1 + a00 - a11 - a22) * (1 - a00 - a11 + a22) = (1) * ((a00 * a00 + a01 * a01 + a02 * a02) - 1) + (-1) * ((a01 * a01 + a11 * a11 + a21 * a21) - 1) + (1) * ((a20 * a20 + a21 * a21 + a22 * a22) - 1) + (-2) * ((a00 * a22 - a02 * a20) - a11)"
    by algebra
  then show "(a02 + a20) * (a02 + a20) = (1 + a00 - a11 - a22) * (1 - a00 - a11 + a22)"
    unfolding k c r00 r11 r22 r01 r02 r12 by simp
  have "(a12 + a21) * (a12 + a21) - (1 - a00 + a11 - a22) * (1 - a00 - a11 + a22) = (-1) * ((a00 * a00 + a10 * a10 + a20 * a20) - 1) + (1) * ((a10 * a10 + a11 * a11 + a12 * a12) - 1) + (1) * ((a20 * a20 + a21 * a21 + a22 * a22) - 1) + (-2) * ((a11 * a22 - a12 * a21) - a00)"
    by algebra
  then show "(a12 + a21) * (a12 + a21) = (1 - a00 + a11 - a22) * (1 - a00 - a11 + a22)"
    unfolding k c r00 r11 r22 r01 r02 r12 by simp
  have "(a21 - a12) * (a02 - a20) - (1 + a00 + a11 + a22) * (a01 + a10) = (-1) * ((a00 * a10 + a01 * a11 + a02 * a12) - 0) + (-1) * ((a00 * a01 + a10 * a11 + a20 * a21) - 0) + (1) * ((a12 * a20 - a10 * a22) - a01) + (1) * ((a02 * a21 - a01 * a22) - a10)"
    by algebra
  then show "(a21 - a12) * (a02 - a20) = (1 + a00 + a11 + a22) * (a01 + a10)"
    unfolding k c r00 r11 r22 r01 r02 r12 by simp
  have "(a21 - a12) * (a10 - a01) - (1 + a00 + a11 + a22) * (a02 + a20) = (-1) * ((a00 * a20 + a01 * a21 + a02 * a22) - 0) + (-1) * ((a00 * a02 + a10 * a12 + a20 * a22) - 0) + (1) * ((a10 * a21 - a11 * a20) - a02) + (1) * ((a01 * a12 - a02 * a11) - a20)"
    by algebra
  then show "(a21 - a12) * (a10 - a01) = (1 + a00 + a11 + a22) * (a02 + a20)"
    unfolding k c r00 r11 r22 r01 r02 r12 by simp
  have "(a02 - a20) * (a10 - a01) - (1 + a00 + a11 + a22) * (a12 + a21) = (-1) * ((a10 * a20 + a11 * a21 + a12 * a22) - 0) + (-1) * ((a01 * a02 + a11 * a12 + a21 * a22) - 0) + (1) * ((a01 * a20 - a00 * a21) - a12) + (1) * ((a02 * a10 - a00 * a12) - a21)"
    by algebra
  then show "(a02 - a20) * (a10 - a01) = (1 + a00 + a11 + a22) * (a12 + a21)"
    unfolding k c r00 r11 r22 r01 r02 r12 by simp
  have "(a01 + a10) * (a02 + a20) - (1 + a00 - a11 - a22) * (a12 + a21) = (1) * ((a10 * a20 + a11 * a21 + a12 * a22) - 0) + (1) * ((a01 * a02 + a11 * a12 + a21 * a22) - 0) + (1) * ((a01 * a20 - a00 * a21) - a12) + (1) * ((a02 * a10 - a00 * a12) - a21)"
    by algebra
  then show "(a01 + a10) * (a02 + a20) = (1 + a00 - a11 - a22) * (a12 + a21)"
    unfolding k c r00 r11 r22 r01 r02 r12 by simp
  have "(a21 - a12) * (a01 + a10) - (1 + a00 - a11 - a22) * (a02 - a20) = (1) * ((a00 * a20 + a01 * a21 + a02 * a22) - 0) + (-1) * ((a00 * a02 + a10 * a12 + a20 * a22) - 0) + (1) * ((a10 * a21 - a11 * a20) - a02) + (-1) * ((a01 * a12 - a02 * a11) - a20)"
    by algebra
  then show "(a21 - a12) * (a01 + a10) = (1 + a00 - a11 - a22) * (a02 - a20)"
    unfolding k c r00 r11 r22 r01 r02 r12 by simp
  have "(a21 - a12) * (a02 + a20) - (1 + a00 - a11 - a22) * (a10 - a01) = (-1) * ((a00 * a10 + a01 * a11 + a02 * a12) - 0) + (1) * ((a00 * a01 + a10 * a11 + a20 * a21) - 0) + (-1) * ((a12 * a20 - a10 * a22) - a01) + (1) * ((a02 * a21 - a01 * a22) - a10)"
    by algebra
  then show "(a21 - a12) * (a02 + a20) = (1 + a00 - a11 - a22) * (a10 - a01)"
    unfolding k c r00 r11 r22 r01 r02 r12 by simp
  have "(a01 + a10) * (a12 + a21) - (1 - a00 + a11 - a22) * (a02 + a20) = (1) * ((a00 * a20 + a01 * a21 + a02 * a22) - 0) + (1) * ((a00 * a02 + a10 * a12 + a20 * a22) - 0) + (1) * ((a10 * a21 - a11 * a20) - a02) + (1) * ((a01 * a12 - a02 * a11) - a20)"
    by algebra
  then show "(a01 + a10) * (a12 + a21) = (1 - a00 + a11 - a22) * (a02 + a20)"
    unfolding k c r00 r11 r22 r01 r02 r12 by simp
  have "(a02 - a20) * (a01 + a10) - (1 - a00 + a11 - a22) * (a21 - a12) = (-1) * ((a10 * a20 + a11 * a21 + a12 * a22) - 0) + (1) * ((a01 * a02 + a11 * a12 + a21 * a22) - 0) + (-1) * ((a01 * a20 - a00 * a21) - a12) + (1) * ((a02 * a10 - a00 * a12) - a21)"
    by algebra
  then show "(a02 - a20) * (a01 + a10) = (1 - a00 + a11 - a22) * (a21 - a12)"
    unfolding k c r00 r11 r22 r01 r02 r12 by simp
  have "(a02 - a20) * (a12 + a21) - (1 - a00 + a11 - a22) * (a10 - a01) = (1) * ((a00 * a10 + a01 * a11 + a02 * a12) - 0) + (-1) * ((a00 * a01 + a10 * a11 + a20 * a21) - 0) + (-1) * ((a12 * a20 - a10 * a22) - a01) + (1) * ((a02 * a21 - a01 * a22) - a10)"
    by algebra
  then show "(a02 - a20) * (a12 + a21) = (1 - a00 + a11 - a22) * (a10 - a01)"
    unfolding k c r00 r11 r22 r01 r02 r12 by simp
  have "(a02 + a20) * (a12 + a21) - (1 - a00 - a11 + a22) * (a01 + a10) = (1) * ((a00 * a10 + a01 * a11 + a02 * a12) - 0) + (1) * ((a00 * a01 + a10 * a11 + a20 * a21) - 0) + (1) * ((a12 * a20 - a10 * a22) - a01) + (1) * ((a02 * a21 - a01 * a22) - a10)"
    by algebra
  then show "(a02 + a20) * (a12 + a21) = (1 - a00 - a11 + a22) * (a01 + a10)"
    unfolding k c r00 r11 r22 r01 r02 r12 by simp
  have "(a10 - a01) * (a02 + a20) - (1 - a00 - a11 + a22) * (a21 - a12) = (1) * ((a10 * a20 + a11 * a21 + a12 * a22) - 0) + (-1) * ((a01 * a02 + a11 * a12 + a21 * a22) - 0) + (-1) * ((a01 * a20 - a00 * a21) - a12) + (1) * ((a02 * a10 - a00 * a12) - a21)"
    by algebra
  then show "(a10 - a01) * (a02 + a20) = (1 - a00 - a11 + a22) * (a21 - a12)"
    unfolding k c r00 r11 r22 r01 r02 r12 by simp
  have "(a10 - a01) * (a12 + a21) - (1 - a00 - a11 + a22) * (a02 - a20) = (-1) * ((a00 * a20 + a01 * a21 + a02 * a22) - 0) + (1) * ((a00 * a02 + a10 * a12 + a20 * a22) - 0) + (1) * ((a10 * a21 - a11 * a20) - a02) + (-1) * ((a01 * a12 - a02 * a11) - a20)"
    by algebra
  then show "(a10 - a01) * (a12 + a21) = (1 - a00 - a11 + a22) * (a02 - a20)"
    unfolding k c r00 r11 r22 r01 r02 r12 by simp
qed

section \<open>Round trips between rotation matrices and quaternions\<close>

lemma matrix_eqI:
  assumes "wf_matrix M" "wf_matrix N" "m_rows M = m_rows N" "m_cols M = m_cols N"
    and "\<And>i j. i < m_rows N \<Longrightarrow> j < m_cols N \<Longrightarrow> elem M i j = elem N i j"
  shows "M = N"
proof -
  have len: "length (m_matrix M) = length (m_matrix N)"
    using assms(1-4) by (simp add: wf_matrix_def)
  have "m_matrix M ! k = m_matrix N ! k" if "k < length (m_matrix N)" for k
  proof -
    from that assms(2) have k: "k < m_rows N * m_cols N" by (simp add: wf_matrix_def)
    then have c: "0 < m_cols N" by (cases "m_cols N") auto
    have j: "k mod m_cols N < m_cols N" using c by simp
    have i: "k div m_cols N < m_rows N"
      using k c by (simp add: less_mult_imp_div_less)
    from assms(5) [OF i j] show ?thesis
      by (simp add: elem_def assms(4))
  qed
  with len have "m_matrix M = m_matrix N"
    by (intro nth_equalityI) simp_all
  with assms(3,4) show ?thesis by simp
qed

lemma sqrt_base:
  assumes "0 < b"
  shows "sqrt (b * 4) * sqrt (b * 4) = b * 4" and "sqrt (b * 4) \<noteq> 0"
  using assms by simp_all

lemma branch_base:
  assumes "0 < b"
  shows "(sqrt (b * 4) / 4) * (sqrt (b * 4) / 4) = b / 4"
proof -
  have "(sqrt (b * 4) / 4) * (sqrt (b * 4) / 4) = (sqrt (b * 4) * sqrt (b * 4)) / 16" by simp
  also have "\<dots> = b / 4" unfolding sqrt_base(1) [OF assms] by simp
  finally show ?thesis .
qed

lemma branch_mix:
  assumes "0 < b"
  shows "(sqrt (b * 4) / 4) * (e / sqrt (b * 4)) = e / 4"
    and "(e / sqrt (b * 4)) * (sqrt (b * 4) / 4) = e / 4"
  using sqrt_base(2) [OF assms] by simp_all

lemma branch_quot:
  assumes "0 < b" "e * e' = b * f"
  shows "(e / sqrt (b * 4)) * (e' / sqrt (b * 4)) = f / 4"
proof -
  have "(e / sqrt (b * 4)) * (e' / sqrt (b * 4)) = (e * e') / (sqrt (b * 4) * sqrt (b * 4))" by simp
  also have "\<dots> = (b * f) / (b * 4)" unfolding sqrt_base(1) [OF assms(1)] assms(2) ..
  also have "\<dots> = f / 4" using assms(1) by simp
  finally show ?thesis .
qed

text \<open>
  A quaternion whose pairwise component products are the combinations of the entries of
  \<open>A\<close> listed below has unit norm, and its matrix is \<open>A\<close>.
\<close>

lemma quaternion_of_products:
  assumes A: "wf_matrix A" "m_rows A = 3" "m_cols A = 3"
    and eps: "0 < eps" "eps \<le> 1"
    and R0: "wf_matrix R0" "m_rows R0 = 3" "m_cols R0 = 3"
    and ww: "w * w = (1 + elem A 0 0 + elem A 1 1 + elem A 2 2) / 4"
    and xx: "x * x = (1 + elem A 0 0 - elem A 1 1 - elem A 2 2) / 4"
    and yy: "y * y = (1 - elem A 0 0 + elem A 1 1 - elem A 2 2) / 4"
    and zz: "z * z = (1 - elem A 0 0 - elem A 1 1 + elem A 2 2) / 4"
    and wx: "w * x = (elem A 2 1 - elem A 1 2) / 4"
    and wy: "w * y = (elem A 0 2 - elem A 2 0) / 4"
    and wz: "w * z = (elem A 1 0 - elem A 0 1) / 4"
    and xy: "x * y = (elem A 0 1 + elem A 1 0) / 4"
    and xz: "x * z = (elem A 0 2 + elem A 2 0) / 4"
    and yz: "y * z = (elem A 1 2 + elem A 2 1) / 4"
  shows "Quaternion_norm (Quat x y z w) = 1 \<and> MP_quaternionToMatrix eps (Quat x y z w) R0 = Inr A"
proof -
  have "x * x + y * y + z * z + w * w = 1"
    unfolding ww xx yy zz by (simp add: field_simps)
  then have n: "Quaternion_norm (Quat x y z w) = 1"
    by (simp add: Quaternion_norm_def)
  from eps n have le: "eps \<le> Quaternion_norm (Quat x y z w)" by simp
  have R3: "3 \<le> m_rows R0" "3 \<le> m_cols R0" using R0 by simp_all
  from MP_quaternionToMatrix_entries [OF eps(1) le R0(1) R3]
  obtain R' where res: "MP_quaternionToMatrix eps (Quat x y z w) R0 = Inr R'"
    and wf: "wf_matrix R'" and dims: "m_rows R' = 3" "m_cols R' = 3"
    and e00: "elem R' 0 0 = w * w + x * x - y * y - z * z"
    and e01: "elem R' 0 1 = 2 * x * y - 2 * w * z"
    and e02: "elem R' 0 2 = 2 * x * z + 2 * w * y"
    and e10: "elem R' 1 0 = 2 * x * y + 2 * w * z"
    and e11: "elem R' 1 1 = w * w - x * x + y * y - z * z"
    and e12: "elem R' 1 2 = 2 * y * z - 2 * w * x"
    and e20: "elem R' 2 0 = 2 * x * z - 2 * w * y"
    and e21: "elem R' 2 1 = 2 * y * z + 2 * w * x"
    and e22: "elem R' 2 2 = w * w - x * x - y * y + z * z"
    unfolding Let_def n R0 by auto
  have d00: "w * w + x * x - y * y - z * z = elem A 0 0" unfolding ww xx yy zz by (simp add: field_simps)
  have d11: "w * w - x * x + y * y - z * z = elem A 1 1" unfolding ww xx yy zz by (simp add: field_simps)
  have d22: "w * w - x * x - y * y + z * z = elem A 2 2" unfolding ww xx yy zz by (simp add: field_simps)
  have "2 * x * y - 2 * w * z = 2 * (x * y) - 2 * (w * z)" by simp
  also have "\<dots> = elem A 0 1" unfolding xy wz by (simp add: field_simps)
  finally have d01: "2 * x * y - 2 * w * z = elem A 0 1" .
  have "2 * x * z + 2 * w * y = 2 * (x * z) + 2 * (w * y)" by simp
  also have "\<dots> = elem A 0 2" unfolding xz wy by (simp add: field_simps)
  finally have d02: "2 * x * z + 2 * w * y = elem A 0 2" .
  have "2 * x * y + 2 * w * z = 2 * (x * y) + 2 * (w * z)" by simp
  also have "\<dots> = elem A 1 0" unfolding xy wz by (simp add: field_simps)
  finally have d10: "2 * x * y + 2 * w * z = elem A 1 0" .
  have "2 * y * z - 2 * w * x = 2 * (y * z) - 2 * (w * x)" by simp
  also have "\<dots> = elem A 1 2" unfolding yz wx by (simp add: field_simps)
  finally have d12: "2 * y * z - 2 * w * x = elem A 1 2" .
  have "2 * x * z - 2 * w * y = 2 * (x * z) - 2 * (w * y)" by simp
  also have "\<dots> = elem A 2 0" unfolding xz wy by (simp add: field_simps)
  finally have d20: "2 * x * z - 2 * w * y = elem A 2 0" .
  have "2 * y * z + 2 * w * x = 2 * (y * z) + 2 * (w * x)" by simp
  also have "\<dots> = elem A 2 1" unfolding yz wx by (simp add: field_simps)
  finally have d21: "2 * y * z + 2 * w * x = elem A 2 1" .
  have "R' = A"
  proof (rule matrix_eqI [OF wf A(1)])
    show "m_rows R' = m_rows A" "m_cols R' = m_cols A" using dims A by simp_all
    fix i j assume "i < m_rows A" "j < m_cols A"
    then have "i = 0 \<or> i = 1 \<or> i = 2" "j = 0 \<or> j = 1 \<or> j = 2" using A by auto
    then show "elem R' i j = elem A i j"
      using e00 e01 e02 e10 e11 e12 e20 e21 e22 d00 d01 d02 d10 d11 d12 d20 d21 d22
      by auto
  qed
  with res n show ?thesis by simp
qed
text \<open>
  From a rotation matrix to its quaternion and back. In each of the four branches the
  selected candidate is at least 1, so the square root divides nothing by zero.
\<close>

lemma rotation_round_trip:
  assumes rot: "rotation_matrix A"
    and eps: "0 < eps" "eps \<le> 1"
    and R0: "wf_matrix R0" "m_rows R0 = 3" "m_cols R0 = 3"
  shows "\<exists>q. MP_matrixToQuaternion A = Inr q \<and> Quaternion_norm q = 1 \<and>
           MP_quaternionToMatrix eps q R0 = Inr A"
proof -
  from rot have A: "wf_matrix A" "m_rows A = 3" "m_cols A = 3"
    by (simp_all add: rotation_matrix_def)
  from rot have r: "row_dot A 0 0 = 1" "row_dot A 1 1 = 1" "row_dot A 2 2 = 1"
    "row_dot A 0 1 = 0" "row_dot A 0 2 = 0" "row_dot A 1 2 = 0" and det: "det3 A = 1"
    by (simp_all add: rotation_matrix_def)
  note P = rotation_products [OF r [unfolded row_dot_def] det [unfolded det3_def]]
  have t: "elem (transpose_matrix A) i j = elem A j i" if "i < 3" "j < 3" for i j
    using that A by (simp add: elem_transpose_matrix)
  have A3: "3 \<le> m_rows A" "3 \<le> m_cols A" using A by simp_all
  note sel = MP_matrixToQuaternion_cases [OF A3]
  let ?rr = "1 + elem A 0 0 + elem A 1 1 + elem A 2 2"
  let ?xx = "1 + elem A 0 0 - elem A 1 1 - elem A 2 2"
  let ?yy = "1 - elem A 0 0 + elem A 1 1 - elem A 2 2"
  let ?zz = "1 - elem A 0 0 - elem A 1 1 + elem A 2 2"
  consider (rr) "?rr \<ge> ?xx \<and> ?rr \<ge> ?yy \<and> ?rr \<ge> ?zz"
    | (xx) "\<not> (?rr \<ge> ?xx \<and> ?rr \<ge> ?yy \<and> ?rr \<ge> ?zz)" "?xx \<ge> ?yy \<and> ?xx \<ge> ?zz"
    | (yy) "\<not> (?rr \<ge> ?xx \<and> ?rr \<ge> ?yy \<and> ?rr \<ge> ?zz)" "\<not> (?xx \<ge> ?yy \<and> ?xx \<ge> ?zz)" "?yy \<ge> ?zz"
    | (zz) "\<not> (?rr \<ge> ?xx \<and> ?rr \<ge> ?yy \<and> ?rr \<ge> ?zz)" "\<not> (?xx \<ge> ?yy \<and> ?xx \<ge> ?zz)" "\<not> ?yy \<ge> ?zz"
    by blast
  then show ?thesis
  proof cases
    case rr
    then have pos: "0 < ?rr" by linarith
    have q: "quat_from_rr (transpose_matrix A) ?rr = Quat ((elem A 2 1 - elem A 1 2) / sqrt (?rr * 4)) ((elem A 0 2 - elem A 2 0) / sqrt (?rr * 4)) ((elem A 1 0 - elem A 0 1) / sqrt (?rr * 4)) (sqrt (?rr * 4) / 4)"
      by (simp add: quat_from_rr_def Let_def t add.commute)
    have res: "MP_matrixToQuaternion A = Inr (Quat ((elem A 2 1 - elem A 1 2) / sqrt (?rr * 4)) ((elem A 0 2 - elem A 2 0) / sqrt (?rr * 4)) ((elem A 1 0 - elem A 0 1) / sqrt (?rr * 4)) (sqrt (?rr * 4) / 4))"
      unfolding q [symmetric] sel by (simp only: rr if_True if_False simp_thms)
    have "Quaternion_norm (Quat ((elem A 2 1 - elem A 1 2) / sqrt (?rr * 4)) ((elem A 0 2 - elem A 2 0) / sqrt (?rr * 4)) ((elem A 1 0 - elem A 0 1) / sqrt (?rr * 4)) (sqrt (?rr * 4) / 4)) = 1 \<and>
          MP_quaternionToMatrix eps (Quat ((elem A 2 1 - elem A 1 2) / sqrt (?rr * 4)) ((elem A 0 2 - elem A 2 0) / sqrt (?rr * 4)) ((elem A 1 0 - elem A 0 1) / sqrt (?rr * 4)) (sqrt (?rr * 4) / 4)) R0 = Inr A"
    proof (rule quaternion_of_products [OF A eps R0])
      show "(sqrt (?rr * 4) / 4) * (sqrt (?rr * 4) / 4) = (1 + elem A 0 0 + elem A 1 1 + elem A 2 2) / 4"
        by (rule branch_base [OF pos])
      show "((elem A 2 1 - elem A 1 2) / sqrt (?rr * 4)) * ((elem A 2 1 - elem A 1 2) / sqrt (?rr * 4)) = (1 + elem A 0 0 - elem A 1 1 - elem A 2 2) / 4"
        by (rule branch_quot [OF pos P(1)])
      show "((elem A 0 2 - elem A 2 0) / sqrt (?rr * 4)) * ((elem A 0 2 - elem A 2 0) / sqrt (?rr * 4)) = (1 - elem A 0 0 + elem A 1 1 - elem A 2 2) / 4"
        by (rule branch_quot [OF pos P(2)])
      show "((elem A 1 0 - elem A 0 1) / sqrt (?rr * 4)) * ((elem A 1 0 - elem A 0 1) / sqrt (?rr * 4)) = (1 - elem A 0 0 - elem A 1 1 + elem A 2 2) / 4"
        by (rule branch_quot [OF pos P(3)])
      show "(sqrt (?rr * 4) / 4) * ((elem A 2 1 - elem A 1 2) / sqrt (?rr * 4)) = (elem A 2 1 - elem A 1 2) / 4"
        by (rule branch_mix(1) [OF pos])
      show "(sqrt (?rr * 4) / 4) * ((elem A 0 2 - elem A 2 0) / sqrt (?rr * 4)) = (elem A 0 2 - elem A 2 0) / 4"
        by (rule branch_mix(1) [OF pos])
      show "(sqrt (?rr * 4) / 4) * ((elem A 1 0 - elem A 0 1) / sqrt (?rr * 4)) = (elem A 1 0 - elem A 0 1) / 4"
        by (rule branch_mix(1) [OF pos])
      show "((elem A 2 1 - elem A 1 2) / sqrt (?rr * 4)) * ((elem A 0 2 - elem A 2 0) / sqrt (?rr * 4)) = (elem A 0 1 + elem A 1 0) / 4"
        by (rule branch_quot [OF pos P(7)])
      show "((elem A 2 1 - elem A 1 2) / sqrt (?rr * 4)) * ((elem A 1 0 - elem A 0 1) / sqrt (?rr * 4)) = (elem A 0 2 + elem A 2 0) / 4"
        by (rule branch_quot [OF pos P(8)])
      show "((elem A 0 2 - elem A 2 0) / sqrt (?rr * 4)) * ((elem A 1 0 - elem A 0 1) / sqrt (?rr * 4)) = (elem A 1 2 + elem A 2 1) / 4"
        by (rule branch_quot [OF pos P(9)])
    qed
    with res show ?thesis by blast
  next
    case xx
    then have pos: "0 < ?xx" by linarith
    have q: "quat_from_xx (transpose_matrix A) ?xx = Quat (sqrt (?xx * 4) / 4) ((elem A 0 1 + elem A 1 0) / sqrt (?xx * 4)) ((elem A 0 2 + elem A 2 0) / sqrt (?xx * 4)) ((elem A 2 1 - elem A 1 2) / sqrt (?xx * 4))"
      by (simp add: quat_from_xx_def Let_def t add.commute)
    have res: "MP_matrixToQuaternion A = Inr (Quat (sqrt (?xx * 4) / 4) ((elem A 0 1 + elem A 1 0) / sqrt (?xx * 4)) ((elem A 0 2 + elem A 2 0) / sqrt (?xx * 4)) ((elem A 2 1 - elem A 1 2) / sqrt (?xx * 4)))"
      unfolding q [symmetric] sel by (simp only: xx if_True if_False simp_thms)
    have "Quaternion_norm (Quat (sqrt (?xx * 4) / 4) ((elem A 0 1 + elem A 1 0) / sqrt (?xx * 4)) ((elem A 0 2 + elem A 2 0) / sqrt (?xx * 4)) ((elem A 2 1 - elem A 1 2) / sqrt (?xx * 4))) = 1 \<and>
          MP_quaternionToMatrix eps (Quat (sqrt (?xx * 4) / 4) ((elem A 0 1 + elem A 1 0) / sqrt (?xx * 4)) ((elem A 0 2 + elem A 2 0) / sqrt (?xx * 4)) ((elem A 2 1 - elem A 1 2) / sqrt (?xx * 4))) R0 = Inr A"
    proof (rule quaternion_of_products [OF A eps R0])
      show "((elem A 2 1 - elem A 1 2) / sqrt (?xx * 4)) * ((elem A 2 1 - elem A 1 2) / sqrt (?xx * 4)) = (1 + elem A 0 0 + elem A 1 1 + elem A 2 2) / 4"
        by (rule branch_quot [OF pos trans [OF P(1) mult.commute]])
      show "(sqrt (?xx * 4) / 4) * (sqrt (?xx * 4) / 4) = (1 + elem A 0 0 - elem A 1 1 - elem A 2 2) / 4"
        by (rule branch_base [OF pos])
      show "((elem A 0 1 + elem A 1 0) / sqrt (?xx * 4)) * ((elem A 0 1 + elem A 1 0) / sqrt (?xx * 4)) = (1 - elem A 0 0 + elem A 1 1 - elem A 2 2) / 4"
        by (rule branch_quot [OF pos P(4)])
      show "((elem A 0 2 + elem A 2 0) / sqrt (?xx * 4)) * ((elem A 0 2 + elem A 2 0) / sqrt (?xx * 4)) = (1 - elem A 0 0 - elem A 1 1 + elem A 2 2) / 4"
        by (rule branch_quot [OF pos P(5)])
      show "((elem A 2 1 - elem A 1 2) / sqrt (?xx * 4)) * (sqrt (?xx * 4) / 4) = (elem A 2 1 - elem A 1 2) / 4"
        by (rule branch_mix(2) [OF pos])
      show "((elem A 2 1 - elem A 1 2) / sqrt (?xx * 4)) * ((elem A 0 1 + elem A 1 0) / sqrt (?xx * 4)) = (elem A 0 2 - elem A 2 0) / 4"
        by (rule branch_quot [OF pos P(11)])
      show "((elem A 2 1 - elem A 1 2) / sqrt (?xx * 4)) * ((elem A 0 2 + elem A 2 0) / sqrt (?xx * 4)) = (elem A 1 0 - elem A 0 1) / 4"
        by (rule branch_quot [OF pos P(12)])
      show "(sqrt (?xx * 4) / 4) * ((elem A 0 1 + elem A 1 0) / sqrt (?xx * 4)) = (elem A 0 1 + elem A 1 0) / 4"
        by (rule branch_mix(1) [OF pos])
      show "(sqrt (?xx * 4) / 4) * ((elem A 0 2 + elem A 2 0) / sqrt (?xx * 4)) = (elem A 0 2 + elem A 2 0) / 4"
        by (rule branch_mix(1) [OF pos])
      show "((elem A 0 1 + elem A 1 0) / sqrt (?xx * 4)) * ((elem A 0 2 + elem A 2 0) / sqrt (?xx * 4)) = (elem A 1 2 + elem A 2 1) / 4"
        by (rule branch_quot [OF pos P(10)])
    qed
    with res show ?thesis by blast
  next
    case yy
    then have pos: "0 < ?yy" by linarith
    have q: "quat_from_yy (transpose_matrix A) ?yy = Quat ((elem A 0 1 + elem A 1 0) / sqrt (?yy * 4)) (sqrt (?yy * 4) / 4) ((elem A 1 2 + elem A 2 1) / sqrt (?yy * 4)) ((elem A 0 2 - elem A 2 0) / sqrt (?yy * 4))"
      by (simp add: quat_from_yy_def Let_def t add.commute)
    have res: "MP_matrixToQuaternion A = Inr (Quat ((elem A 0 1 + elem A 1 0) / sqrt (?yy * 4)) (sqrt (?yy * 4) / 4) ((elem A 1 2 + elem A 2 1) / sqrt (?yy * 4)) ((elem A 0 2 - elem A 2 0) / sqrt (?yy * 4)))"
      unfolding q [symmetric] sel by (simp only: yy if_True if_False simp_thms)
    have "Quaternion_norm (Quat ((elem A 0 1 + elem A 1 0) / sqrt (?yy * 4)) (sqrt (?yy * 4) / 4) ((elem A 1 2 + elem A 2 1) / sqrt (?yy * 4)) ((elem A 0 2 - elem A 2 0) / sqrt (?yy * 4))) = 1 \<and>
          MP_quaternionToMatrix eps (Quat ((elem A 0 1 + elem A 1 0) / sqrt (?yy * 4)) (sqrt (?yy * 4) / 4) ((elem A 1 2 + elem A 2 1) / sqrt (?yy * 4)) ((elem A 0 2 - elem A 2 0) / sqrt (?yy * 4))) R0 = Inr A"
    proof (rule quaternion_of_products [OF A eps R0])
      show "((elem A 0 2 - elem A 2 0) / sqrt (?yy * 4)) * ((elem A 0 2 - elem A 2 0) / sqrt (?yy * 4)) = (1 + elem A 0 0 + elem A 1 1 + elem A 2 2) / 4"
        by (rule branch_quot [OF pos trans [OF P(2) mult.commute]])
      show "((elem A 0 1 + elem A 1 0) / sqrt (?yy * 4)) * ((elem A 0 1 + elem A 1 0) / sqrt (?yy * 4)) = (1 + elem A 0 0 - elem A 1 1 - elem A 2 2) / 4"
        by (rule branch_quot [OF pos trans [OF P(4) mult.commute]])
      show "(sqrt (?yy * 4) / 4) * (sqrt (?yy * 4) / 4) = (1 - elem A 0 0 + elem A 1 1 - elem A 2 2) / 4"
        by (rule branch_base [OF pos])
      show "((elem A 1 2 + elem A 2 1) / sqrt (?yy * 4)) * ((elem A 1 2 + elem A 2 1) / sqrt (?yy * 4)) = (1 - elem A 0 0 - elem A 1 1 + elem A 2 2) / 4"
        by (rule branch_quot [OF pos P(6)])
      show "((elem A 0 2 - elem A 2 0) / sqrt (?yy * 4)) * ((elem A 0 1 + elem A 1 0) / sqrt (?yy * 4)) = (elem A 2 1 - elem A 1 2) / 4"
        by (rule branch_quot [OF pos P(14)])
      show "((elem A 0 2 - elem A 2 0) / sqrt (?yy * 4)) * (sqrt (?yy * 4) / 4) = (elem A 0 2 - elem A 2 0) / 4"
        by (rule branch_mix(2) [OF pos])
      show "((elem A 0 2 - elem A 2 0) / sqrt (?yy * 4)) * ((elem A 1 2 + elem A 2 1) / sqrt (?yy * 4)) = (elem A 1 0 - elem A 0 1) / 4"
        by (rule branch_quot [OF pos P(15)])
      show "((elem A 0 1 + elem A 1 0) / sqrt (?yy * 4)) * (sqrt (?yy * 4) / 4) = (elem A 0 1 + elem A 1 0) / 4"
        by (rule branch_mix(2) [OF pos])
      show "((elem A 0 1 + elem A 1 0) / sqrt (?yy * 4)) * ((elem A 1 2 + elem A 2 1) / sqrt (?yy * 4)) = (elem A 0 2 + elem A 2 0) / 4"
        by (rule branch_quot [OF pos P(13)])
      show "(sqrt (?yy * 4) / 4) * ((elem A 1 2 + elem A 2 1) / sqrt (?yy * 4)) = (elem A 1 2 + elem A 2 1) / 4"
        by (rule branch_mix(1) [OF pos])
    qed
    with res show ?thesis by blast
  next
    case zz
    then have pos: "0 < ?zz" by linarith
    have q: "quat_from_zz (transpose_matrix A) ?zz = Quat ((elem A 0 2 + elem A 2 0) / sqrt (?zz * 4)) ((elem A 1 2 + elem A 2 1) / sqrt (?zz * 4)) (sqrt (?zz * 4) / 4) ((elem A 1 0 - elem A 0 1) / sqrt (?zz * 4))"
      by (simp add: quat_from_zz_def Let_def t add.commute)
    have res: "MP_matrixToQuaternion A = Inr (Quat ((elem A 0 2 + elem A 2 0) / sqrt (?zz * 4)) ((elem A 1 2 + elem A 2 1) / sqrt (?zz * 4)) (sqrt (?zz * 4) / 4) ((elem A 1 0 - elem A 0 1) / sqrt (?zz * 4)))"
      unfolding q [symmetric] sel by (simp only: zz if_True if_False simp_thms)
    have "Quaternion_norm (Quat ((elem A 0 2 + elem A 2 0) / sqrt (?zz * 4)) ((elem A 1 2 + elem A 2 1) / sqrt (?zz * 4)) (sqrt (?zz * 4) / 4) ((elem A 1 0 - elem A 0 1) / sqrt (?zz * 4))) = 1 \<and>
          MP_quaternionToMatrix eps (Quat ((elem A 0 2 + elem A 2 0) / sqrt (?zz * 4)) ((elem A 1 2 + elem A 2 1) / sqrt (?zz * 4)) (sqrt (?zz * 4) / 4) ((elem A 1 0 - elem A 0 1) / sqrt (?zz * 4))) R0 = Inr A"
    proof (rule quaternion_of_products [OF A eps R0])
      show "((elem A 1 0 - elem A 0 1) / sqrt (?zz * 4)) * ((elem A 1 0 - elem A 0 1) / sqrt (?zz * 4)) = (1 + elem A 0 0 + elem A 1 1 + elem A 2 2) / 4"
        by (rule branch_quot [OF pos trans [OF P(3) mult.commute]])
      show "((elem A 0 2 + elem A 2 0) / sqrt (?zz * 4)) * ((elem A 0 2 + elem A 2 0) / sqrt (?zz * 4)) = (1 + elem A 0 0 - elem A 1 1 - elem A 2 2) / 4"
        by (rule branch_quot [OF pos trans [OF P(5) mult.commute]])
      show "((elem A 1 2 + elem A 2 1) / sqrt (?zz * 4)) * ((elem A 1 2 + elem A 2 1) / sqrt (?zz * 4)) = (1 - elem A 0 0 + elem A 1 1 - elem A 2 2) / 4"
        by (rule branch_quot [OF pos trans [OF P(6) mult.commute]])
      show "(sqrt (?zz * 4) / 4) * (sqrt (?zz * 4) / 4) = (1 - elem A 0 0 - elem A 1 1 + elem A 2 2) / 4"
        by (rule branch_base [OF pos])
      show "((elem A 1 0 - elem A 0 1) / sqrt (?zz * 4)) * ((elem A 0 2 + elem A 2 0) / sqrt (?zz * 4)) = (elem A 2 1 - elem A 1 2) / 4"
        by (rule branch_quot [OF pos P(17)])
      show "((elem A 1 0 - elem A 0 1) / sqrt (?zz * 4)) * ((elem A 1 2 + elem A 2 1) / sqrt (?zz * 4)) = (elem A 0 2 - elem A 2 0) / 4"
        by (rule branch_quot [OF pos P(18)])
      show "((elem A 1 0 - elem A 0 1) / sqrt (?zz * 4)) * (sqrt (?zz * 4) / 4) = (elem A 1 0 - elem A 0 1) / 4"
        by (rule branch_mix(2) [OF pos])
      show "((elem A 0 2 + elem A 2 0) / sqrt (?zz * 4)) * ((elem A 1 2 + elem A 2 1) / sqrt (?zz * 4)) = (elem A 0 1 + elem A 1 0) / 4"
        by (rule branch_quot [OF pos P(16)])
      show "((elem A 0 2 + elem A 2 0) / sqrt (?zz * 4)) * (sqrt (?zz * 4) / 4) = (elem A 0 2 + elem A 2 0) / 4"
        by (rule branch_mix(2) [OF pos])
      show "((elem A 1 2 + elem A 2 1) / sqrt (?zz * 4)) * (sqrt (?zz * 4) / 4) = (elem A 1 2 + elem A 2 1) / 4"
        by (rule branch_mix(2) [OF pos])
    qed
    with res show ?thesis by blast
  qed
qed

lemma recover_component:
  fixes c e :: real
  assumes "c \<noteq> 0"
  shows "(4 * c * e) / sqrt (4 * (c * c) * 4) = (if 0 < c then e else - e)"
    and "sqrt (4 * (c * c) * 4) / 4 = (if 0 < c then c else - c)"
proof -
  have "4 * (c * c) * 4 = (4 * \<bar>c\<bar>)\<^sup>2"
    by (simp add: power2_eq_square)
  then have s: "sqrt (4 * (c * c) * 4) = 4 * \<bar>c\<bar>"
    by (simp only: real_sqrt_abs)
  show "(4 * c * e) / sqrt (4 * (c * c) * 4) = (if 0 < c then e else - e)"
    unfolding s using assms by (auto simp: abs_if)
  show "sqrt (4 * (c * c) * 4) / 4 = (if 0 < c then c else - c)"
    unfolding s by (auto simp: abs_if)
qed

text \<open>
  From a unit quaternion to its matrix and back: the quaternion returns, or its negative.
\<close>

lemma quaternion_round_trip:
  assumes unit: "Quaternion_norm p = 1"
    and eps: "0 < eps" "eps \<le> 1"
    and R0: "wf_matrix R0" "m_rows R0 = 3" "m_cols R0 = 3"
  shows "\<exists>M q'. MP_quaternionToMatrix eps p R0 = Inr M \<and> MP_matrixToQuaternion M = Inr q' \<and>
           (q' = p \<or> q' = Quaternion_neg p)"
proof -
  obtain x y z w where p: "p = Quat x y z w" by (cases p)
  have u1: "x * x + y * y + z * z + w * w = 1"
    using Quaternion_norm_square [of p] unit by (simp add: p)
  from eps unit have le: "eps \<le> Quaternion_norm p" by simp
  have R3: "3 \<le> m_rows R0" "3 \<le> m_cols R0" using R0 by simp_all
  from MP_quaternionToMatrix_entries [OF eps(1) le R0(1) R3]
  obtain M where res: "MP_quaternionToMatrix eps p R0 = Inr M"
    and wf: "wf_matrix M" and dims: "m_rows M = 3" "m_cols M = 3"
    and e00: "elem M 0 0 = w * w + x * x - y * y - z * z"
    and e01: "elem M 0 1 = 2 * x * y - 2 * w * z"
    and e02: "elem M 0 2 = 2 * x * z + 2 * w * y"
    and e10: "elem M 1 0 = 2 * x * y + 2 * w * z"
    and e11: "elem M 1 1 = w * w - x * x + y * y - z * z"
    and e12: "elem M 1 2 = 2 * y * z - 2 * w * x"
    and e20: "elem M 2 0 = 2 * x * z - 2 * w * y"
    and e21: "elem M 2 1 = 2 * y * z + 2 * w * x"
    and e22: "elem M 2 2 = w * w - x * x - y * y + z * z"
    unfolding Let_def unit R0 by (auto simp: p)
  have M3: "3 \<le> m_rows M" "3 \<le> m_cols M" using dims by simp_all
  note sel = MP_matrixToQuaternion_cases [OF M3]
  have t: "elem (transpose_matrix M) 0 1 = elem M 1 0" "elem (transpose_matrix M) 1 0 = elem M 0 1"
    "elem (transpose_matrix M) 0 2 = elem M 2 0" "elem (transpose_matrix M) 2 0 = elem M 0 2"
    "elem (transpose_matrix M) 1 2 = elem M 2 1" "elem (transpose_matrix M) 2 1 = elem M 1 2"
    using dims by (simp_all add: elem_transpose_matrix)
  have crr: "1 + elem M 0 0 + elem M 1 1 + elem M 2 2 = 4 * (w * w)"
    unfolding e00 e11 e22 using u1 by linarith
  have cxx: "1 + elem M 0 0 - elem M 1 1 - elem M 2 2 = 4 * (x * x)"
    unfolding e00 e11 e22 using u1 by linarith
  have cyy: "1 - elem M 0 0 + elem M 1 1 - elem M 2 2 = 4 * (y * y)"
    unfolding e00 e11 e22 using u1 by linarith
  have czz: "1 - elem M 0 0 - elem M 1 1 + elem M 2 2 = 4 * (z * z)"
    unfolding e00 e11 e22 using u1 by linarith
  have o1: "elem M 2 1 - elem M 1 2 = 4 * w * x"
    unfolding e01 e02 e10 e12 e20 e21 by simp
  have o2: "elem M 0 2 - elem M 2 0 = 4 * w * y"
    unfolding e01 e02 e10 e12 e20 e21 by simp
  have o3: "elem M 1 0 - elem M 0 1 = 4 * w * z"
    unfolding e01 e02 e10 e12 e20 e21 by simp
  have o4: "elem M 1 0 + elem M 0 1 = 4 * x * y"
    unfolding e01 e02 e10 e12 e20 e21 by simp
  have o5: "elem M 2 0 + elem M 0 2 = 4 * x * z"
    unfolding e01 e02 e10 e12 e20 e21 by simp
  have o6: "elem M 2 1 - elem M 1 2 = 4 * x * w"
    unfolding e01 e02 e10 e12 e20 e21 by simp
  have o7: "elem M 1 0 + elem M 0 1 = 4 * y * x"
    unfolding e01 e02 e10 e12 e20 e21 by simp
  have o8: "elem M 2 1 + elem M 1 2 = 4 * y * z"
    unfolding e01 e02 e10 e12 e20 e21 by simp
  have o9: "elem M 0 2 - elem M 2 0 = 4 * y * w"
    unfolding e01 e02 e10 e12 e20 e21 by simp
  have o10: "elem M 2 0 + elem M 0 2 = 4 * z * x"
    unfolding e01 e02 e10 e12 e20 e21 by simp
  have o11: "elem M 2 1 + elem M 1 2 = 4 * z * y"
    unfolding e01 e02 e10 e12 e20 e21 by simp
  have o12: "elem M 1 0 - elem M 0 1 = 4 * z * w"
    unfolding e01 e02 e10 e12 e20 e21 by simp
  let ?rr = "1 + elem M 0 0 + elem M 1 1 + elem M 2 2"
  let ?xx = "1 + elem M 0 0 - elem M 1 1 - elem M 2 2"
  let ?yy = "1 - elem M 0 0 + elem M 1 1 - elem M 2 2"
  let ?zz = "1 - elem M 0 0 - elem M 1 1 + elem M 2 2"
  consider (rr) "?rr \<ge> ?xx \<and> ?rr \<ge> ?yy \<and> ?rr \<ge> ?zz"
    | (xx) "\<not> (?rr \<ge> ?xx \<and> ?rr \<ge> ?yy \<and> ?rr \<ge> ?zz)" "?xx \<ge> ?yy \<and> ?xx \<ge> ?zz"
    | (yy) "\<not> (?rr \<ge> ?xx \<and> ?rr \<ge> ?yy \<and> ?rr \<ge> ?zz)" "\<not> (?xx \<ge> ?yy \<and> ?xx \<ge> ?zz)" "?yy \<ge> ?zz"
    | (zz) "\<not> (?rr \<ge> ?xx \<and> ?rr \<ge> ?yy \<and> ?rr \<ge> ?zz)" "\<not> (?xx \<ge> ?yy \<and> ?xx \<ge> ?zz)" "\<not> ?yy \<ge> ?zz"
    by blast
  then show ?thesis
  proof cases
    case rr
    then have "1 \<le> ?rr" using crr cxx cyy czz u1 by linarith
    then have nz: "w \<noteq> 0" unfolding crr by auto
    have "quat_from_rr (transpose_matrix M) ?rr = Quat (4 * w * x / sqrt (4 * (w * w) * 4)) (4 * w * y / sqrt (4 * (w * w) * 4)) (4 * w * z / sqrt (4 * (w * w) * 4)) (sqrt (4 * (w * w) * 4) / 4)"
      unfolding quat_from_rr_def Let_def t crr o1 o2 o3 by (rule refl)
    also have "\<dots> = Quat (if 0 < w then x else - x) (if 0 < w then y else - y) (if 0 < w then z else - z) (if 0 < w then w else - w)"
      unfolding recover_component [OF nz] by (rule refl)
    finally have q: "quat_from_rr (transpose_matrix M) ?rr = Quat (if 0 < w then x else - x) (if 0 < w then y else - y) (if 0 < w then z else - z) (if 0 < w then w else - w)" .
    have sel': "MP_matrixToQuaternion M = Inr (Quat (if 0 < w then x else - x) (if 0 < w then y else - y) (if 0 < w then z else - z) (if 0 < w then w else - w))"
      unfolding q [symmetric] sel by (simp only: rr if_True if_False simp_thms)
    have "Quat (if 0 < w then x else - x) (if 0 < w then y else - y) (if 0 < w then z else - z) (if 0 < w then w else - w) = p \<or> Quat (if 0 < w then x else - x) (if 0 < w then y else - y) (if 0 < w then z else - z) (if 0 < w then w else - w) = Quaternion_neg p"
      by (simp add: p Quaternion_neg_def)
    with res sel' show ?thesis by blast
  next
    case xx
    then have "1 \<le> ?xx" using crr cxx cyy czz u1 by linarith
    then have nz: "x \<noteq> 0" unfolding cxx by auto
    have "quat_from_xx (transpose_matrix M) ?xx = Quat (sqrt (4 * (x * x) * 4) / 4) (4 * x * y / sqrt (4 * (x * x) * 4)) (4 * x * z / sqrt (4 * (x * x) * 4)) (4 * x * w / sqrt (4 * (x * x) * 4))"
      unfolding quat_from_xx_def Let_def t cxx o4 o5 o6 by (rule refl)
    also have "\<dots> = Quat (if 0 < x then x else - x) (if 0 < x then y else - y) (if 0 < x then z else - z) (if 0 < x then w else - w)"
      unfolding recover_component [OF nz] by (rule refl)
    finally have q: "quat_from_xx (transpose_matrix M) ?xx = Quat (if 0 < x then x else - x) (if 0 < x then y else - y) (if 0 < x then z else - z) (if 0 < x then w else - w)" .
    have sel': "MP_matrixToQuaternion M = Inr (Quat (if 0 < x then x else - x) (if 0 < x then y else - y) (if 0 < x then z else - z) (if 0 < x then w else - w))"
      unfolding q [symmetric] sel by (simp only: xx if_True if_False simp_thms)
    have "Quat (if 0 < x then x else - x) (if 0 < x then y else - y) (if 0 < x then z else - z) (if 0 < x then w else - w) = p \<or> Quat (if 0 < x then x else - x) (if 0 < x then y else - y) (if 0 < x then z else - z) (if 0 < x then w else - w) = Quaternion_neg p"
      by (simp add: p Quaternion_neg_def)
    with res sel' show ?thesis by blast
  next
    case yy
    then have "1 \<le> ?yy" using crr cxx cyy czz u1 by linarith
    then have nz: "y \<noteq> 0" unfolding cyy by auto
    have "quat_from_yy (transpose_matrix M) ?yy = Quat (4 * y * x / sqrt (4 * (y * y) * 4)) (sqrt (4 * (y * y) * 4) / 4) (4 * y * z / sqrt (4 * (y * y) * 4)) (4 * y * w / sqrt (4 * (y * y) * 4))"
      unfolding quat_from_yy_def Let_def t cyy o7 o8 o9 by (rule refl)
    also have "\<dots> = Quat (if 0 < y then x else - x) (if 0 < y then y else - y) (if 0 < y then z else - z) (if 0 < y then w else - w)"
      unfolding recover_component [OF nz] by (rule refl)
    finally have q: "quat_from_yy (transpose_matrix M) ?yy = Quat (if 0 < y then x else - x) (if 0 < y then y else - y) (if 0 < y then z else - z) (if 0 < y then w else - w)" .
    have sel': "MP_matrixToQuaternion M = Inr (Quat (if 0 < y then x else - x) (if 0 < y then y else - y) (if 0 < y then z else - z) (if 0 < y then w else - w))"
      unfolding q [symmetric] sel by (simp only: yy if_True if_False simp_thms)
    have "Quat (if 0 < y then x else - x) (if 0 < y then y else - y) (if 0 < y then z else - z) (if 0 < y then w else - w) = p \<or> Quat (if 0 < y then x else - x) (if 0 < y then y else - y) (if 0 < y then z else - z) (if 0 < y then w else - w) = Quaternion_neg p"
      by (simp add: p Quaternion_neg_def)
    with res sel' show ?thesis by blast
  next
    case zz
    then have "1 \<le> ?zz" using crr cxx cyy czz u1 by linarith
    then have nz: "z \<noteq> 0" unfolding czz by auto
    have "quat_from_zz (transpose_matrix M) ?zz = Quat (4 * z * x / sqrt (4 * (z * z) * 4)) (4 * z * y / sqrt (4 * (z * z) * 4)) (sqrt (4 * (z * z) * 4) / 4) (4 * z * w / sqrt (4 * (z * z) * 4))"
      unfolding quat_from_zz_def Let_def t czz o10 o11 o12 by (rule refl)
    also have "\<dots> = Quat (if 0 < z then x else - x) (if 0 < z then y else - y) (if 0 < z then z else - z) (if 0 < z then w else - w)"
      unfolding recover_component [OF nz] by (rule refl)
    finally have q: "quat_from_zz (transpose_matrix M) ?zz = Quat (if 0 < z then x else - x) (if 0 < z then y else - y) (if 0 < z then z else - z) (if 0 < z then w else - w)" .
    have sel': "MP_matrixToQuaternion M = Inr (Quat (if 0 < z then x else - x) (if 0 < z then y else - y) (if 0 < z then z else - z) (if 0 < z then w else - w))"
      unfolding q [symmetric] sel by (simp only: zz if_True if_False simp_thms)
    have "Quat (if 0 < z then x else - x) (if 0 < z then y else - y) (if 0 < z then z else - z) (if 0 < z then w else - w) = p \<or> Quat (if 0 < z then x else - x) (if 0 < z then y else - y) (if 0 < z then z else - z) (if 0 < z then w else - w) = Quaternion_neg p"
      by (simp add: p Quaternion_neg_def)
    with res sel' show ?thesis by blast
  qed
qed

text \<open>
  Claim C7. For every 3-by-3 rotation matrix \<open>R\<close> (orthonormal rows, determinant 1) the
  conversion to a quaternion followed by the conversion to a matrix returns \<open>R\<close> (in
  exact arithmetic, every entry); and for every unit quaternion, which encodes an axis
  and an angle, the conversion to a matrix followed by the conversion to a quaternion
  returns the quaternion or its negative. The output matrix is any 3-by-3 matrix, and the
  threshold of \<open>normalize\<close> is any positive number up to 1.
\<close>

theorem rotation_quaternion_round_trip:
  assumes "0 < eps" "eps \<le> 1" "wf_matrix R0" "m_rows R0 = 3" "m_cols R0 = 3"
  shows "(rotation_matrix A \<longrightarrow>
            (\<exists>q. MP_matrixToQuaternion A = Inr q \<and> MP_quaternionToMatrix eps q R0 = Inr A)) \<and>
         (Quaternion_norm p = 1 \<longrightarrow>
            (\<exists>M q'. MP_quaternionToMatrix eps p R0 = Inr M \<and> MP_matrixToQuaternion M = Inr q' \<and>
                     (q' = p \<or> q' = Quaternion_neg p)))"
  using rotation_round_trip [OF _ assms] quaternion_round_trip [OF _ assms] by blast

theorem rotation_quaternion_round_trip_witness:
  "rotation_matrix \<lparr>m_rows = 3, m_cols = 3, m_matrix = [0, - 1, 0, 1, 0, 0, 0, 0, 1]\<rparr> \<and>
   Quaternion_norm (Quat 1 0 0 0) = 1 \<and>
   (\<exists>q. MP_matrixToQuaternion \<lparr>m_rows = 3, m_cols = 3, m_matrix = [0, - 1, 0, 1, 0, 0, 0, 0, 1]\<rparr> = Inr q \<and>
        MP_quaternionToMatrix (1 / 1000000) q \<lparr>m_rows = 3, m_cols = 3, m_matrix = replicate 9 0\<rparr>
          = Inr \<lparr>m_rows = 3, m_cols = 3, m_matrix = [0, - 1, 0, 1, 0, 0, 0, 0, 1]\<rparr>) \<and>
   (\<exists>M q'. MP_quaternionToMatrix (1 / 1000000) (Quat 1 0 0 0)
              \<lparr>m_rows = 3, m_cols = 3, m_matrix = replicate 9 0\<rparr> = Inr M \<and>
           MP_matrixToQuaternion M = Inr q' \<and>
           (q' = Quat 1 0 0 0 \<or> q' = Quaternion_neg (Quat 1 0 0 0)))"
proof -
  let ?A = "\<lparr>m_rows = 3, m_cols = 3, m_matrix = [0, - 1, 0, 1, 0, 0, 0, 0, 1]\<rparr>"
  let ?R0 = "\<lparr>m_rows = 3, m_cols = 3, m_matrix = replicate 9 0\<rparr>"
  have rot: "rotation_matrix ?A"
    by (simp add: rotation_matrix_def wf_matrix_def row_dot_def det3_def elem_def)
  have unit: "Quaternion_norm (Quat 1 0 0 0) = 1"
    by (simp add: Quaternion_norm_def)
  have eps: "(0::real) < 1 / 1000000" "(1::real) / 1000000 \<le> 1" by simp_all
  have R0: "wf_matrix ?R0" "m_rows ?R0 = 3" "m_cols ?R0 = 3" by (simp_all add: wf_matrix_def)
  from rotation_quaternion_round_trip [OF eps R0, of ?A "Quat 1 0 0 0"] rot unit
  show ?thesis by blast
qed

section \<open>Row and column loops on buffers\<close>


lemma swap_idx_simps [simp]:
  "swap_idx a b a = b" "swap_idx a b b = a" "i \<noteq> a \<Longrightarrow> i \<noteq> b \<Longrightarrow> swap_idx a b i = i"
  "swap_idx a a i = i"
  by (simp_all add: swap_idx_def)

lemma swap_idx_less: "a < n \<Longrightarrow> b < n \<Longrightarrow> i < n \<Longrightarrow> swap_idx a b i < n"
  by (simp add: swap_idx_def)

lemma swap_idx_involution [simp]: "swap_idx a b (swap_idx a b i) = i"
  by (simp add: swap_idx_def)

lemma swap_idx_bij: "a < n \<Longrightarrow> b < n \<Longrightarrow> bij_betw (swap_idx a b) {..<n} {..<n}"
  by (rule bij_betw_byWitness [where f' = "swap_idx a b"]) (auto simp: swap_idx_less)









section \<open>One iteration of Gauss-Jordan on the buffers\<close>




section \<open>Matrices as functions\<close>













section \<open>The pivot search of Gauss-Jordan\<close>





section \<open>One iteration of the Gauss-Jordan loop\<close>


section \<open>One Gauss-Jordan step preserves the invariant\<close>



section \<open>The Gauss-Jordan loop\<close>






section \<open>Matrix values and index functions\<close>




section \<open>\<open>MP_GaussJordan\<close> solves the system and inverts the matrix\<close>



section \<open>Invertible matrices\<close>







section \<open>Gauss-Jordan completes on a matrix with an inverse\<close>










section \<open>Gauss-Jordan on a matrix with an inverse\<close>



section \<open>One column of Gaussian elimination on the buffers\<close>







section \<open>Forward elimination preserves the invariant\<close>







section \<open>Backward substitution\<close>







section \<open>\<open>MP_GaussElimination\<close> solves the system\<close>


section \<open>Gaussian elimination completes on a matrix with an inverse\<close>








section \<open>The two solvers on the same input\<close>




end
